theory Spec2Isabelle
  imports Complex_Main
begin

section \<open>Graph options: request resolution (graph/options/options.go)\<close>

subsection \<open>Time values of the Go standard library\<close>

text \<open>
  A \<open>time.Time\<close> is read through its two accessors: \<open>sec\<close>, the seconds since
  January 1 of year 1, and \<open>nsec\<close>, the nanoseconds within that second. The monotonic
  clock reading and the location play no role in the code modelled here (a namespace
  creation timestamp and \<open>time.Unix\<close> carry no monotonic reading, so \<open>Sub\<close>
  compares wall clock instants). A \<open>time.Duration\<close> is an int64 count of nanoseconds,
  modelled as an \<open>int\<close>.
\<close>

record Time =
  sec :: int
  nsec :: int

type_synonym Duration = int

definition minDuration :: Duration where
  "minDuration = - (2 ^ 63)"

definition maxDuration :: Duration where
  "maxDuration = 2 ^ 63 - 1"

definition unixToInternal :: int where
  "unixToInternal = 62135596800"

text \<open>int64 arithmetic wraps around: the value of an int64 holding the exact result \<open>x\<close>.\<close>

definition wrap64 :: "int \<Rightarrow> int" where
  "wrap64 x = (x + 2 ^ 63) mod 2 ^ 64 - 2 ^ 63"

text \<open>\<open>t.IsZero()\<close>: the instant January 1, year 1, 00:00:00 UTC.\<close>

definition IsZero :: "Time \<Rightarrow> bool" where
  "IsZero t \<longleftrightarrow> sec t = 0 \<and> nsec t = 0"

text \<open>\<open>time.Unix(s, n)\<close> for \<open>0 \<le> n < 10^9\<close> (the code calls it with \<open>n = 0\<close>).\<close>

definition Unix :: "int \<Rightarrow> int \<Rightarrow> Time" where
  "Unix s n = \<lparr>sec = wrap64 (s + unixToInternal), nsec = n\<rparr>"

text \<open>\<open>t.Unix()\<close>: the seconds since January 1, 1970.\<close>

definition ToUnix :: "Time \<Rightarrow> int" where
  "ToUnix t = wrap64 (sec t - unixToInternal)"

text \<open>The exact number of nanoseconds from \<open>u\<close> to \<open>t\<close>.\<close>

definition nanosBetween :: "Time \<Rightarrow> Time \<Rightarrow> int" where
  "nanosBetween t u = (sec t - sec u) * 1000000000 + (nsec t - nsec u)"

text \<open>
  \<open>t.Sub(u)\<close>: the duration \<open>t - u\<close>; when it does not fit a \<open>Duration\<close>, the
  minimum or the maximum duration is returned instead.
\<close>

definition Sub :: "Time \<Rightarrow> Time \<Rightarrow> Duration" where
  "Sub t u =
     (let d = nanosBetween t u
      in if d < minDuration then minDuration
         else if maxDuration < d then maxDuration
         else d)"

subsection \<open>resolveNamespaceDuration (lines 351-369)\<close>

text \<open>
  The parameter \<open>now\<close> is the value that \<open>time.Now()\<close> returns when the function
  reads the clock; it is read only when \<open>queryTime\<close> is 0 and the creation time is set.
\<close>

definition resolveNamespaceDuration :: "Time \<Rightarrow> Duration \<Rightarrow> int \<Rightarrow> Time \<Rightarrow> Duration" where
  "resolveNamespaceDuration nsCreationTime requestedRange queryTime now =
     (let resolvedBound = requestedRange
      in if \<not> IsZero nsCreationTime then
           (let referenceTime = (if queryTime \<noteq> 0 then Unix queryTime 0 else now);
                nsLifetime = Sub referenceTime nsCreationTime
            in if nsLifetime < resolvedBound then nsLifetime else resolvedBound)
         else resolvedBound)"


subsection \<open>Strings of the Go standard library\<close>

text \<open>
  A Go string is a sequence of bytes, here a \<open>string\<close> of 8-bit characters.
  \<open>strings.TrimSpace\<close> removes the leading and the trailing white space runes, as
  Unicode defines them, reading the bytes as UTF-8. The white space runes and their
  encodings: U+0009 to U+000D, U+0020, U+0085, U+00A0, U+1680, U+2000 to U+200A, U+2028,
  U+2029, U+202F, U+205F and U+3000. Decoding forwards, a rune at the start is white space
  exactly when the string starts with one of these encodings; decoding backwards
  (\<open>utf8.DecodeLastRuneInString\<close>), the last rune is white space exactly when the string
  ends with one of them.
\<close>

definition spaceRunes :: "string list" where
  "spaceRunes =
     [[CHR 0x09], [CHR 0x0A], [CHR 0x0B], [CHR 0x0C], [CHR 0x0D], [CHR 0x20],
      [CHR 0xC2, CHR 0x85], [CHR 0xC2, CHR 0xA0],
      [CHR 0xE1, CHR 0x9A, CHR 0x80],
      [CHR 0xE2, CHR 0x80, CHR 0x80], [CHR 0xE2, CHR 0x80, CHR 0x81],
      [CHR 0xE2, CHR 0x80, CHR 0x82], [CHR 0xE2, CHR 0x80, CHR 0x83],
      [CHR 0xE2, CHR 0x80, CHR 0x84], [CHR 0xE2, CHR 0x80, CHR 0x85],
      [CHR 0xE2, CHR 0x80, CHR 0x86], [CHR 0xE2, CHR 0x80, CHR 0x87],
      [CHR 0xE2, CHR 0x80, CHR 0x88], [CHR 0xE2, CHR 0x80, CHR 0x89],
      [CHR 0xE2, CHR 0x80, CHR 0x8A],
      [CHR 0xE2, CHR 0x80, CHR 0xA8], [CHR 0xE2, CHR 0x80, CHR 0xA9],
      [CHR 0xE2, CHR 0x80, CHR 0xAF],
      [CHR 0xE2, CHR 0x81, CHR 0x9F],
      [CHR 0xE3, CHR 0x80, CHR 0x80]]"

text \<open>The number of bytes of the white space rune a string starts with (0 when it starts with none).\<close>

definition leadingSpace :: "string \<Rightarrow> nat" where
  "leadingSpace s =
     (case filter (\<lambda>w. take (length w) s = w) spaceRunes of
        [] \<Rightarrow> 0
      | w # _ \<Rightarrow> length w)"

text \<open>The number of bytes of the white space rune a string ends with (0 when it ends with none).\<close>

definition trailingSpace :: "string \<Rightarrow> nat" where
  "trailingSpace s =
     (case filter (\<lambda>w. length w \<le> length s \<and> drop (length s - length w) s = w) spaceRunes of
        [] \<Rightarrow> 0
      | w # _ \<Rightarrow> length w)"

lemma leadingSpace_le: "leadingSpace s \<le> length s"
proof (cases "filter (\<lambda>w. take (length w) s = w) spaceRunes")
  case Nil
  then show ?thesis by (simp add: leadingSpace_def)
next
  case (Cons w ws)
  then have "w \<in> set (filter (\<lambda>w. take (length w) s = w) spaceRunes)" by simp
  then have "take (length w) s = w" by simp
  then have "length w \<le> length s" by (metis length_take min.cobounded1)
  with Cons show ?thesis by (simp add: leadingSpace_def)
qed

lemma trailingSpace_le: "trailingSpace s \<le> length s"
proof (cases "filter (\<lambda>w. length w \<le> length s \<and> drop (length s - length w) s = w) spaceRunes")
  case Nil
  then show ?thesis by (simp add: trailingSpace_def)
next
  case (Cons w ws)
  then have "w \<in> set (filter (\<lambda>w. length w \<le> length s \<and> drop (length s - length w) s = w) spaceRunes)"
    by simp
  then have "length w \<le> length s" by simp
  with Cons show ?thesis by (simp add: trailingSpace_def)
qed

function TrimLeft :: "string \<Rightarrow> string" where
  "TrimLeft s = (if leadingSpace s = 0 then s else TrimLeft (drop (leadingSpace s) s))"
  by pat_completeness auto
termination
proof (relation "measure length")
  show "wf (measure length)" by simp
next
  fix s :: string
  assume "leadingSpace s \<noteq> 0"
  with leadingSpace_le [of s] show "(drop (leadingSpace s) s, s) \<in> measure length"
    by simp
qed

declare TrimLeft.simps [simp del]

function TrimRight :: "string \<Rightarrow> string" where
  "TrimRight s =
     (if trailingSpace s = 0 then s else TrimRight (take (length s - trailingSpace s) s))"
  by pat_completeness auto
termination
proof (relation "measure length")
  show "wf (measure length)" by simp
next
  fix s :: string
  assume "trailingSpace s \<noteq> 0"
  with trailingSpace_le [of s] show "(take (length s - trailingSpace s) s, s) \<in> measure length"
    by simp
qed

declare TrimRight.simps [simp del]

definition TrimSpace :: "string \<Rightarrow> string" where
  "TrimSpace s = TrimRight (TrimLeft s)"

text \<open>
  \<open>strings.Split(s, sep)\<close> for a separator of one byte: the pieces of \<open>s\<close> between the
  separators, one more piece than there are separators (so a single empty piece for the
  empty string).
\<close>

fun Split :: "string \<Rightarrow> char \<Rightarrow> string list" where
  "Split [] sep = [[]]"
| "Split (c # cs) sep =
     (if c = sep then [] # Split cs sep
      else (case Split cs sep of
              [] \<Rightarrow> [[c]]
            | t # ts \<Rightarrow> (c # t) # ts))"

text \<open>
  \<open>strconv.ParseBool\<close>: \<open>None\<close> stands for a returned error.
\<close>

definition ParseBool :: "string \<Rightarrow> bool option" where
  "ParseBool str =
     (if str \<in> set [''1'', ''t'', ''T'', ''TRUE'', ''true'', ''True''] then Some True
      else if str \<in> set [''0'', ''f'', ''F'', ''FALSE'', ''false'', ''False''] then Some False
      else None)"

text \<open>
  \<open>strconv.ParseInt(s, 10, 64)\<close>: an optional sign and one or more decimal digits, with a
  value that fits an int64; \<open>None\<close> stands for a returned error (of syntax or of range).
\<close>

definition isDigit :: "char \<Rightarrow> bool" where
  "isDigit c \<longleftrightarrow> 48 \<le> (of_char c :: int) \<and> (of_char c :: int) \<le> 57"

fun digitsValue :: "int \<Rightarrow> string \<Rightarrow> int option" where
  "digitsValue acc [] = Some acc"
| "digitsValue acc (c # cs) =
     (if isDigit c then digitsValue (acc * 10 + (of_char c - 48)) cs else None)"

text \<open>
  \<open>strconv.ParseUint(s, 10, 64)\<close> as \<open>ParseInt\<close> uses it: the exact value of the digits
  (where \<open>ParseUint\<close> reports a range error with the largest uint64, a value that
  \<open>ParseInt\<close> rejects as well), \<open>None\<close> for a syntax error.
\<close>

definition ParseUint :: "string \<Rightarrow> int option" where
  "ParseUint s = (if s = [] then None else digitsValue 0 s)"

definition ParseInt :: "string \<Rightarrow> int option" where
  "ParseInt s =
     (if s = [] then None
      else
        (let neg = (hd s = CHR ''-'');
             s' = (if hd s = CHR ''+'' \<or> hd s = CHR ''-'' then tl s else s)
         in case ParseUint s' of
              None \<Rightarrow> None
            | Some un \<Rightarrow>
                if \<not> neg \<and> un \<ge> 2 ^ 63 then None
                else if neg \<and> un > 2 ^ 63 then None
                else Some (if neg then - un else un)))"

subsection \<open>Constants and errors of the graph and appender packages\<close>

text \<open>
  Modelled from the spec: the graph type names of package \<open>graph\<close> (section 4.1:
  "must be one of {app, service, versionedApp, workload}"), whose source is not part of
  the files at hand.
\<close>

definition GraphTypeApp :: string where "GraphTypeApp = ''app''"
definition GraphTypeService :: string where "GraphTypeService = ''service''"
definition GraphTypeVersionedApp :: string where "GraphTypeVersionedApp = ''versionedApp''"
definition GraphTypeWorkload :: string where "GraphTypeWorkload = ''workload''"

text \<open>
  Modelled from the spec: the names of the seven appenders of package \<open>appender\<close>
  (section 4.3 names the stages, section 8 writes two of the names as the request does:
  \<open>sidecarsCheck\<close>, \<open>serviceEntry\<close>).
\<close>

definition DeadNodeAppenderName :: string where "DeadNodeAppenderName = ''deadNode''"
definition IstioAppenderName :: string where "IstioAppenderName = ''istio''"
definition ResponseTimeAppenderName :: string where "ResponseTimeAppenderName = ''responseTime''"
definition SecurityPolicyAppenderName :: string where "SecurityPolicyAppenderName = ''securityPolicy''"
definition ServiceEntryAppenderName :: string where "ServiceEntryAppenderName = ''serviceEntry''"
definition SidecarsCheckAppenderName :: string where "SidecarsCheckAppenderName = ''sidecarsCheck''"
definition UnusedNodeAppenderName :: string where "UnusedNodeAppenderName = ''unusedNode''"

text \<open>
  Modelled from the spec: \<open>graph.BadRequest\<close>, \<open>graph.Forbidden\<close>, \<open>graph.Error\<close> and
  \<open>graph.CheckError\<close> abort the resolution with a failure that carries the message
  (section 7: BadRequest, Forbidden, Internal; "fail-fast", "all errors abort resolution
  immediately"). A function that may abort returns \<open>error + 'a\<close>.
\<close>

datatype error = BadRequest string | Forbidden string | InternalError string

definition bindE :: "error + 'a \<Rightarrow> ('a \<Rightarrow> error + 'b) \<Rightarrow> error + 'b" where
  "bindE m f = (case m of Inl e \<Rightarrow> Inl e | Inr x \<Rightarrow> f x)"

subsection \<open>The options (lines 20-66)\<close>

definition GroupByApp :: string where "GroupByApp = ''app''"
definition GroupByNone :: string where "GroupByNone = ''none''"
definition GroupByVersion :: string where "GroupByVersion = ''version''"
definition NamespaceIstio :: string where "NamespaceIstio = ''istio-system''"
definition VendorCytoscape :: string where "VendorCytoscape = ''cytoscape''"
definition defaultDuration :: string where "defaultDuration = ''10m''"
definition defaultGraphType :: string where "defaultGraphType = GraphTypeWorkload"
definition defaultGroupBy :: string where "defaultGroupBy = GroupByNone"
definition defaultIncludeIstio :: bool where "defaultIncludeIstio = False"
definition defaultInjectServiceNodes :: bool where "defaultInjectServiceNodes = False"
definition defaultVendor :: string where "defaultVendor = VendorCytoscape"

definition graphKindNamespace :: string where "graphKindNamespace = ''namespace''"
definition graphKindNode :: string where "graphKindNode = ''node''"

text \<open>
  \<open>graph.NamespaceInfo\<close>, with its fields \<open>Name\<close> and \<open>Duration\<close> (prefixed here:
  \<open>Duration\<close> is a field of \<open>VendorOptions\<close> as well).
\<close>

record NamespaceInfo =
  ns_Name :: string
  ns_Duration :: Duration

record NodeOptions =
  App :: string
  Namespace :: string
  Service :: string
  Version :: string
  Workload :: string

record VendorOptions =
  Duration :: Duration
  GraphType :: string
  GroupBy :: string
  QueryTime :: int

text \<open>
  The appenders, each with the fields its struct literal sets in \<open>parseAppenders\<close>, in
  the order of the literal. The type \<open>'f\<close> stands for float64.
  \<^item> \<open>ServiceEntryAppender\<close>: AccessibleNamespaces;
  \<^item> \<open>ResponseTimeAppender\<close>: Quantile, GraphType, InjectServiceNodes, IncludeIstio,
    Namespaces, QueryTime;
  \<^item> \<open>SecurityPolicyAppender\<close>: GraphType, IncludeIstio, InjectServiceNodes,
    Namespaces, QueryTime;
  \<^item> \<open>UnusedNodeAppender\<close>: GraphType, IsNodeGraph.
\<close>

datatype 'f Appender =
    ServiceEntryAppender "string \<rightharpoonup> Time"
  | DeadNodeAppender
  | ResponseTimeAppender 'f string bool bool "string \<rightharpoonup> NamespaceInfo" int
  | SecurityPolicyAppender string bool bool "string \<rightharpoonup> NamespaceInfo" int
  | UnusedNodeAppender string bool
  | IstioAppender
  | SidecarsCheckAppender

text \<open>
  Modelled from the spec: the \<open>Name()\<close> of an appender, the name that selects it in the
  request (section 4.3).
\<close>

fun appenderName :: "'f Appender \<Rightarrow> string" where
  "appenderName (ServiceEntryAppender _) = ServiceEntryAppenderName"
| "appenderName DeadNodeAppender = DeadNodeAppenderName"
| "appenderName (ResponseTimeAppender _ _ _ _ _ _) = ResponseTimeAppenderName"
| "appenderName (SecurityPolicyAppender _ _ _ _ _) = SecurityPolicyAppenderName"
| "appenderName (UnusedNodeAppender _ _) = UnusedNodeAppenderName"
| "appenderName IstioAppender = IstioAppenderName"
| "appenderName SidecarsCheckAppender = SidecarsCheckAppenderName"

record 'f Options =
  AccessibleNamespaces :: "string \<rightharpoonup> Time"
  Appenders :: "'f Appender list"
  IncludeIstio :: bool
  InjectServiceNodes :: bool
  Namespaces :: "string \<rightharpoonup> NamespaceInfo"
  Vendor :: string
  NodeOptions :: NodeOptions
  VendorOptions :: VendorOptions

subsection \<open>The request and its environment\<close>

text \<open>
  What \<open>NewOptions\<close> reads of the \<open>http.Request\<close>: the path variables
  (\<open>mux.Vars\<close>, a \<open>map[string]string\<close>), the query parameters (\<open>url.Values\<close>, a
  \<open>map[string][]string\<close>) and the value stored under \<open>"token"\<close> in the context
  (absent, a string, or a value of another type).
\<close>

datatype contextValue = StringValue string | OtherValue

record Request =
  vars :: "string \<rightharpoonup> string"
  params :: "string \<rightharpoonup> string list"
  tokenContext :: "contextValue option"

text \<open>Reading a Go map of strings at a key: the empty string when the key is absent.\<close>

definition lookupVar :: "(string \<rightharpoonup> string) \<Rightarrow> string \<Rightarrow> string" where
  "lookupVar m k = (case m k of None \<Rightarrow> [] | Some v \<Rightarrow> v)"

text \<open>\<open>url.Values.Get\<close>: the first value of the key, the empty string when there is none.\<close>

definition Get :: "(string \<rightharpoonup> string list) \<Rightarrow> string \<Rightarrow> string" where
  "Get v k = (case v k of None \<Rightarrow> [] | Some [] \<Rightarrow> [] | Some (x # _) \<Rightarrow> x)"

text \<open>
  What the code calls of the world outside:
  \<^item> \<open>ParseDuration\<close>: \<open>model.ParseDuration\<close> of the Prometheus library (\<open>None\<close> for an
    error);
  \<^item> \<open>ParseFloat\<close>: \<open>strconv.ParseFloat(s, 64)\<close> (\<open>None\<close> for an error);
  \<^item> \<open>DefaultQuantile\<close>: the constant \<open>appender.DefaultQuantile\<close>;
  \<^item> \<open>clock\<close>: the value of the \<open>k\<close>-th call of \<open>time.Now()\<close> during the resolution;
  \<^item> \<open>GetNamespaces\<close>: the business layer (\<open>business.Get(token)\<close>, then
    \<open>Namespace.GetNamespaces()\<close>): the error's message, or the namespaces with their
    creation timestamps.
\<close>

record 'f Env =
  ParseDuration :: "string \<Rightarrow> Duration option"
  ParseFloat :: "string \<Rightarrow> 'f option"
  DefaultQuantile :: 'f
  clock :: "nat \<Rightarrow> Time"
  GetNamespaces :: "string \<Rightarrow> string + (string \<times> Time) list"

subsection \<open>GetGraphKind (lines 221-230)\<close>

definition GetGraphKind :: "'f Options \<Rightarrow> string" where
  "GetGraphKind opts =
     (if App (NodeOptions opts) \<noteq> [] \<or>
         Version (NodeOptions opts) \<noteq> [] \<or>
         Workload (NodeOptions opts) \<noteq> [] \<or>
         Service (NodeOptions opts) \<noteq> []
      then graphKindNode
      else graphKindNamespace)"

subsection \<open>parseAppenders (lines 232-325)\<close>

text \<open>
  The loop of lines 236-257 over the pieces of the \<open>appenders\<close> parameter;
  \<open>requestedAppenders\<close> is the \<open>map[string]bool\<close> it fills.
\<close>

fun requestAppenders :: "string list \<Rightarrow> (string \<rightharpoonup> bool) \<Rightarrow> error + (string \<rightharpoonup> bool)" where
  "requestAppenders [] requestedAppenders = Inr requestedAppenders"
| "requestAppenders (requestedAppender # rest) requestedAppenders =
     (let name = TrimSpace requestedAppender
      in if name = DeadNodeAppenderName then
           requestAppenders rest (requestedAppenders(DeadNodeAppenderName \<mapsto> True))
         else if name = ServiceEntryAppenderName then
           requestAppenders rest (requestedAppenders(ServiceEntryAppenderName \<mapsto> True))
         else if name = IstioAppenderName then
           requestAppenders rest (requestedAppenders(IstioAppenderName \<mapsto> True))
         else if name = ResponseTimeAppenderName then
           requestAppenders rest (requestedAppenders(ResponseTimeAppenderName \<mapsto> True))
         else if name = SecurityPolicyAppenderName then
           requestAppenders rest (requestedAppenders(SecurityPolicyAppenderName \<mapsto> True))
         else if name = SidecarsCheckAppenderName then
           requestAppenders rest (requestedAppenders(SidecarsCheckAppenderName \<mapsto> True))
         else if name = UnusedNodeAppenderName then
           requestAppenders rest (requestedAppenders(UnusedNodeAppenderName \<mapsto> True))
         else if name = [] then
           requestAppenders rest requestedAppenders
         else Inl (BadRequest (''Invalid appender ['' @ name @ '']'')))"

text \<open>Lines 233-260: the requested appenders and the flag \<open>allAppenders\<close>.\<close>

definition selectAppenders :: "(string \<rightharpoonup> string list) \<Rightarrow> error + ((string \<rightharpoonup> bool) \<times> bool)" where
  "selectAppenders params' =
     (case params' ''appenders'' of
        Some _ \<Rightarrow>
          bindE (requestAppenders (Split (Get params' ''appenders'') CHR '','') Map.empty)
            (\<lambda>requestedAppenders. Inr (requestedAppenders, False))
      | None \<Rightarrow> Inr (Map.empty, True))"

text \<open>Lines 281-286: the quantile of the response time appender.\<close>

definition responseTimeQuantile :: "'f Env \<Rightarrow> (string \<rightharpoonup> string list) \<Rightarrow> 'f" where
  "responseTimeQuantile env params' =
     (case params' ''responseTimeQuantile'' of
        Some _ \<Rightarrow>
          (case ParseFloat env (Get params' ''responseTimeQuantile'') of
             Some responseTimeQuantile \<Rightarrow> responseTimeQuantile
           | None \<Rightarrow> DefaultQuantile env)
      | None \<Rightarrow> DefaultQuantile env)"

text \<open>Lines 268-324: the appenders, appended in the order of the code.\<close>

definition buildAppenders ::
  "'f Env \<Rightarrow> (string \<rightharpoonup> string list) \<Rightarrow> 'f Options \<Rightarrow> (string \<rightharpoonup> bool) \<Rightarrow> bool \<Rightarrow> 'f Appender list" where
  "buildAppenders env params' opts requestedAppenders allAppenders =
     (if requestedAppenders ServiceEntryAppenderName \<noteq> None \<or> allAppenders
      then [ServiceEntryAppender (AccessibleNamespaces opts)] else [])
     @ (if requestedAppenders DeadNodeAppenderName \<noteq> None \<or> allAppenders
        then [DeadNodeAppender] else [])
     @ (if requestedAppenders ResponseTimeAppenderName \<noteq> None \<or> allAppenders
        then [ResponseTimeAppender (responseTimeQuantile env params')
                (GraphType (VendorOptions opts)) (InjectServiceNodes opts) (IncludeIstio opts)
                (Namespaces opts) (QueryTime (VendorOptions opts))]
        else [])
     @ (if requestedAppenders SecurityPolicyAppenderName \<noteq> None \<or> allAppenders
        then [SecurityPolicyAppender (GraphType (VendorOptions opts)) (IncludeIstio opts)
                (InjectServiceNodes opts) (Namespaces opts) (QueryTime (VendorOptions opts))]
        else [])
     @ (if requestedAppenders UnusedNodeAppenderName \<noteq> None \<or> allAppenders
        then (let hasNodeOptions =
                    (App (NodeOptions opts) \<noteq> [] \<or> Workload (NodeOptions opts) \<noteq> [] \<or>
                     Service (NodeOptions opts) \<noteq> [])
              in [UnusedNodeAppender (GraphType (VendorOptions opts)) hasNodeOptions])
        else [])
     @ (if requestedAppenders IstioAppenderName \<noteq> None \<or> allAppenders
        then [IstioAppender] else [])
     @ (if requestedAppenders SidecarsCheckAppenderName \<noteq> None \<or> allAppenders
        then [SidecarsCheckAppender] else [])"

definition parseAppenders ::
  "'f Env \<Rightarrow> (string \<rightharpoonup> string list) \<Rightarrow> 'f Options \<Rightarrow> error + 'f Appender list" where
  "parseAppenders env params' opts =
     bindE (selectAppenders params')
       (\<lambda>(requestedAppenders, allAppenders).
          Inr (buildAppenders env params' opts requestedAppenders allAppenders))"

subsection \<open>getAccessibleNamespaces (lines 331-346)\<close>

definition getAccessibleNamespaces :: "'f Env \<Rightarrow> string \<Rightarrow> error + (string \<rightharpoonup> Time)" where
  "getAccessibleNamespaces env token =
     (case GetNamespaces env token of
        Inl message \<Rightarrow> Inl (InternalError message)
      | Inr namespaces \<Rightarrow>
          Inr (fold (\<lambda>(name, creationTimestamp) namespaceMap. namespaceMap(name \<mapsto> creationTimestamp))
                 namespaces Map.empty))"

subsection \<open>NewOptions (lines 68-218)\<close>

text \<open>Lines 92-100.\<close>

definition resolveDuration :: "'f Env \<Rightarrow> string \<Rightarrow> error + Duration" where
  "resolveDuration env durationString =
     (if durationString = [] then
        Inr (case ParseDuration env defaultDuration of Some d \<Rightarrow> d | None \<Rightarrow> 0)
      else
        (case ParseDuration env durationString of
           None \<Rightarrow> Inl (BadRequest (''Invalid duration ['' @ durationString @ '']''))
         | Some d \<Rightarrow> Inr d))"

text \<open>Lines 101-105.\<close>

definition resolveGraphType :: "string \<Rightarrow> error + string" where
  "resolveGraphType graphType =
     (if graphType = [] then Inr defaultGraphType
      else if graphType \<noteq> GraphTypeApp \<and> graphType \<noteq> GraphTypeService \<and>
              graphType \<noteq> GraphTypeVersionedApp \<and> graphType \<noteq> GraphTypeWorkload
      then Inl (BadRequest (''Invalid graphType ['' @ graphType @ '']''))
      else Inr graphType)"

text \<open>Lines 106-109: app node graphs require an app graph type.\<close>

definition checkAppGraphType :: "string \<Rightarrow> string \<Rightarrow> error + unit" where
  "checkAppGraphType app graphType =
     (if app \<noteq> [] \<and> graphType \<noteq> GraphTypeApp \<and> graphType \<noteq> GraphTypeVersionedApp
      then Inl (BadRequest (''Invalid graphType ['' @ graphType @
             '']. This node detail graph supports only graphType app or versionedApp.''))
      else Inr ())"

text \<open>Lines 110-114.\<close>

definition resolveGroupBy :: "string \<Rightarrow> error + string" where
  "resolveGroupBy groupBy =
     (if groupBy = [] then Inr defaultGroupBy
      else if groupBy \<noteq> GroupByApp \<and> groupBy \<noteq> GroupByNone \<and> groupBy \<noteq> GroupByVersion
      then Inl (BadRequest (''Invalid groupBy ['' @ groupBy @ '']''))
      else Inr groupBy)"

text \<open>Lines 115-123.\<close>

definition resolveIncludeIstio :: "string \<Rightarrow> error + bool" where
  "resolveIncludeIstio includeIstioString =
     (if includeIstioString = [] then Inr defaultIncludeIstio
      else
        (case ParseBool includeIstioString of
           None \<Rightarrow> Inl (BadRequest (''Invalid includeIstio ['' @ includeIstioString @ '']''))
         | Some includeIstio \<Rightarrow> Inr includeIstio))"

text \<open>Lines 124-132.\<close>

definition resolveInjectServiceNodes :: "string \<Rightarrow> error + bool" where
  "resolveInjectServiceNodes injectServiceNodesString =
     (if injectServiceNodesString = [] then Inr defaultInjectServiceNodes
      else
        (case ParseBool injectServiceNodesString of
           None \<Rightarrow>
             Inl (BadRequest (''Invalid injectServiceNodes ['' @ injectServiceNodesString @ '']''))
         | Some injectServiceNodes \<Rightarrow> Inr injectServiceNodes))"

text \<open>
  Lines 133-141, with the number of clock readings made (from reading 0 on): the query
  time, and 1 when \<open>time.Now()\<close> was called.
\<close>

definition resolveQueryTime :: "'f Env \<Rightarrow> string \<Rightarrow> error + (int \<times> nat)" where
  "resolveQueryTime env queryTimeString =
     (if queryTimeString = [] then Inr (ToUnix (clock env 0), 1)
      else
        (case ParseInt queryTimeString of
           None \<Rightarrow> Inl (BadRequest (''Invalid queryTime ['' @ queryTimeString @ '']''))
         | Some queryTime \<Rightarrow> Inr (queryTime, 0)))"

text \<open>Lines 142-146.\<close>

definition resolveVendor :: "string \<Rightarrow> error + string" where
  "resolveVendor vendor =
     (if vendor = [] then Inr defaultVendor
      else if vendor \<noteq> VendorCytoscape
      then Inl (BadRequest (''Invalid vendor ['' @ vendor @ '']''))
      else Inr vendor)"

text \<open>Lines 151-161.\<close>

definition resolveToken :: "contextValue option \<Rightarrow> error + string" where
  "resolveToken tokenContext' =
     (case tokenContext' of
        Some (StringValue tokenString) \<Rightarrow> Inr tokenString
      | Some OtherValue \<Rightarrow> Inl (InternalError ''token is not of type string'')
      | None \<Rightarrow> Inl (InternalError ''token missing in request context''))"

text \<open>
  The number of clock readings of one call of \<open>resolveNamespaceDuration\<close>.
\<close>

definition clockReadings :: "Time \<Rightarrow> int \<Rightarrow> nat" where
  "clockReadings nsCreationTime queryTime =
     (if \<not> IsZero nsCreationTime \<and> queryTime = 0 then 1 else 0)"

text \<open>
  The loop of lines 176-186 over the pieces of \<open>namespaces\<close>; its state is the
  \<open>namespaceMap\<close> and the number of clock readings made so far.
\<close>

fun resolveNamespaces ::
  "'f Env \<Rightarrow> (string \<rightharpoonup> Time) \<Rightarrow> Duration \<Rightarrow> int \<Rightarrow> string list \<Rightarrow>
   (string \<rightharpoonup> NamespaceInfo) \<times> nat \<Rightarrow> error + ((string \<rightharpoonup> NamespaceInfo) \<times> nat)" where
  "resolveNamespaces env accessibleNamespaces duration queryTime [] state = Inr state"
| "resolveNamespaces env accessibleNamespaces duration queryTime (piece # pieces) (namespaceMap, k) =
     (let namespaceToken = TrimSpace piece
      in case accessibleNamespaces namespaceToken of
           Some creationTime \<Rightarrow>
             resolveNamespaces env accessibleNamespaces duration queryTime pieces
               (namespaceMap(namespaceToken \<mapsto>
                  \<lparr>ns_Name = namespaceToken,
                   ns_Duration = resolveNamespaceDuration creationTime duration queryTime (clock env k)\<rparr>),
                k + clockReadings creationTime queryTime)
         | None \<Rightarrow>
             Inl (Forbidden (''Requested namespace ['' @ namespaceToken @ ''] is not accessible.'')))"

text \<open>Lines 168-174: the namespaces to resolve.\<close>

definition requestedNamespaces :: "string \<Rightarrow> string \<Rightarrow> error + string" where
  "requestedNamespaces namespace namespaces =
     (let namespaces = (if namespace \<noteq> [] then namespace else namespaces)
      in if namespaces = [] then
           Inl (BadRequest
             ''At least one namespace must be specified via the namespaces query parameter.'')
         else Inr namespaces)"

text \<open>
  Lines 68-146: the query parameters are read and checked one after the other, the first
  failure aborting. The result holds the local variables \<open>duration\<close>, \<open>graphType\<close>,
  \<open>groupBy\<close>, \<open>includeIstio\<close>, \<open>injectServiceNodes\<close>, \<open>queryTime\<close> (with the
  number of clock readings made) and \<open>vendor\<close>.
\<close>

definition resolveQueryParams ::
  "'f Env \<Rightarrow> Request \<Rightarrow>
   error + (Duration \<times> string \<times> string \<times> bool \<times> bool \<times> (int \<times> nat) \<times> string)" where
  "resolveQueryParams env r =
     (let vars' = vars r;
          app = lookupVar vars' ''app'';
          params' = params r;
          durationString = Get params' ''duration'';
          graphType = Get params' ''graphType'';
          groupBy = Get params' ''groupBy'';
          includeIstioString = Get params' ''includeIstio'';
          injectServiceNodesString = Get params' ''injectServiceNodes'';
          queryTimeString = Get params' ''queryTime'';
          vendor = Get params' ''vendor''
      in
        bindE (resolveDuration env durationString) (\<lambda>duration.
        bindE (resolveGraphType graphType) (\<lambda>graphType.
        bindE (checkAppGraphType app graphType) (\<lambda>_.
        bindE (resolveGroupBy groupBy) (\<lambda>groupBy.
        bindE (resolveIncludeIstio includeIstioString) (\<lambda>includeIstio.
        bindE (resolveInjectServiceNodes injectServiceNodesString) (\<lambda>injectServiceNodes.
        bindE (resolveQueryTime env queryTimeString) (\<lambda>queryTime.
        bindE (resolveVendor vendor) (\<lambda>vendor.
          Inr (duration, graphType, groupBy, includeIstio, injectServiceNodes, queryTime,
               vendor))))))))))"

text \<open>
  Lines 68-212: after the query parameters, the token is read, the accessible namespaces
  are fetched, the requested namespaces are resolved and the options are built;
  \<open>Appenders\<close> is not set yet (it is \<open>nil\<close>).
\<close>

definition resolveOptions :: "'f Env \<Rightarrow> Request \<Rightarrow> error + 'f Options" where
  "resolveOptions env r =
     (let vars' = vars r;
          app = lookupVar vars' ''app'';
          namespace = lookupVar vars' ''namespace'';
          service = lookupVar vars' ''service'';
          version = lookupVar vars' ''version'';
          workload = lookupVar vars' ''workload'';
          namespaces = Get (params r) ''namespaces''
      in
        bindE (resolveQueryParams env r)
          (\<lambda>(duration, graphType, groupBy, includeIstio, injectServiceNodes,
             (queryTime, readings), vendor).
        bindE (resolveToken (tokenContext r)) (\<lambda>token.
        bindE (getAccessibleNamespaces env token) (\<lambda>accessibleNamespaces.
        bindE (requestedNamespaces namespace namespaces) (\<lambda>namespaces.
        bindE (resolveNamespaces env accessibleNamespaces duration queryTime
                 (Split namespaces CHR '','') (Map.empty, readings)) (\<lambda>(namespaceMap, _).
        (let injectServiceNodes = (if graphType = GraphTypeService then True else injectServiceNodes)
         in Inr
              \<lparr>AccessibleNamespaces = accessibleNamespaces,
               Appenders = [],
               IncludeIstio = includeIstio,
               InjectServiceNodes = injectServiceNodes,
               Namespaces = namespaceMap,
               Vendor = vendor,
               NodeOptions =
                 \<lparr>App = app, Namespace = namespace, Service = service,
                  Version = version, Workload = workload\<rparr>,
               VendorOptions =
                 \<lparr>Duration = duration, GraphType = graphType, GroupBy = groupBy,
                  QueryTime = queryTime\<rparr>\<rparr>)))))))"

text \<open>Lines 68-218: the options, then (lines 214-217) their appenders.\<close>

definition NewOptions :: "'f Env \<Rightarrow> Request \<Rightarrow> error + 'f Options" where
  "NewOptions env r =
     bindE (resolveOptions env r) (\<lambda>options.
     bindE (parseAppenders env (params r) options) (\<lambda>appenders.
       Inr (options\<lparr>Appenders := appenders\<rparr>)))"

subsection \<open>The order of the stages, and an example environment\<close>

text \<open>
  The known stages in the order of the table of section 4.3 of the specification, by
  the names that select them.
\<close>

definition stageOrder :: "string list" where
  "stageOrder =
     [ServiceEntryAppenderName, DeadNodeAppenderName, ResponseTimeAppenderName,
      SecurityPolicyAppenderName, UnusedNodeAppenderName, IstioAppenderName,
      SidecarsCheckAppenderName]"

text \<open>
  An environment for the examples: float64 values are read as reals, the two parsers
  are given on the strings the examples use (\<open>10m\<close> is ten minutes, \<open>0.5\<close> is one
  half, the other strings of the examples are no durations and no numbers), the clock
  advances one second at each reading, and the caller may access the namespace
  \<open>bookinfo\<close>, created 300 seconds before the first reading, and \<open>istio-system\<close>, whose
  creation time is not set.
\<close>

definition exampleEnv :: "real Env" where
  "exampleEnv =
     \<lparr>ParseDuration = (\<lambda>s. if s = ''10m'' then Some 600000000000 else None),
      ParseFloat = (\<lambda>s. if s = ''0.5'' then Some (1 / 2) else None),
      DefaultQuantile = 95 / 100,
      clock = (\<lambda>k. Unix (1600000000 + int k) 0),
      GetNamespaces =
        (\<lambda>token. Inr [(''bookinfo'', Unix 1599999700 0),
                       (''istio-system'', \<lparr>sec = 0, nsec = 0\<rparr>)])\<rparr>"

definition exampleOptions :: "real Options" where
  "exampleOptions =
     \<lparr>AccessibleNamespaces = [''bookinfo'' \<mapsto> Unix 1599999700 0],
      Appenders = [],
      IncludeIstio = False,
      InjectServiceNodes = False,
      Namespaces = [''bookinfo'' \<mapsto> \<lparr>ns_Name = ''bookinfo'', ns_Duration = 300000000000\<rparr>],
      Vendor = ''cytoscape'',
      NodeOptions = \<lparr>App = [], Namespace = [], Service = [], Version = [], Workload = []\<rparr>,
      VendorOptions = \<lparr>Duration = 600000000000, GraphType = ''workload'', GroupBy = ''none'',
                       QueryTime = 1600000000\<rparr>\<rparr>"

text \<open>
  The value of \<open>namespaces\<close> after lines 168-170: the \<open>namespace\<close> path variable when
  it is set, the \<open>namespaces\<close> query parameter otherwise.
\<close>

definition effectiveNamespaces :: "Request \<Rightarrow> string" where
  "effectiveNamespaces r =
     (if lookupVar (vars r) ''namespace'' \<noteq> [] then lookupVar (vars r) ''namespace''
      else Get (params r) ''namespaces'')"

text \<open>Requests for the examples. The caller of each is identified by a token.\<close>

definition serviceGraphRequest :: Request where
  "serviceGraphRequest =
     \<lparr>vars = Map.empty,
      params = [''graphType'' \<mapsto> [''service''], ''injectServiceNodes'' \<mapsto> [''false''],
                ''namespaces'' \<mapsto> [''bookinfo'']],
      tokenContext = Some (StringValue ''token'')\<rparr>"

definition nodeNamespaceRequest :: Request where
  "nodeNamespaceRequest =
     \<lparr>vars = [''namespace'' \<mapsto> ''bookinfo''],
      params = [''namespaces'' \<mapsto> [''secret'']],
      tokenContext = Some (StringValue ''token'')\<rparr>"

definition quantileRequest :: "string \<Rightarrow> Request" where
  "quantileRequest quantile =
     \<lparr>vars = Map.empty,
      params = [''namespaces'' \<mapsto> [''bookinfo''], ''responseTimeQuantile'' \<mapsto> [quantile]],
      tokenContext = Some (StringValue ''token'')\<rparr>"

definition workloadNodeRequest :: Request where
  "workloadNodeRequest =
     \<lparr>vars = [''workload'' \<mapsto> ''details-v1'', ''namespace'' \<mapsto> ''bookinfo''],
      params = [''graphType'' \<mapsto> [''workload'']],
      tokenContext = Some (StringValue ''token'')\<rparr>"

definition appNodeRequest :: "string \<Rightarrow> Request" where
  "appNodeRequest graphType =
     \<lparr>vars = [''app'' \<mapsto> ''reviews'', ''namespace'' \<mapsto> ''bookinfo''],
      params = [''graphType'' \<mapsto> [graphType]],
      tokenContext = Some (StringValue ''token'')\<rparr>"

definition serviceNodeRequest :: "string \<Rightarrow> Request" where
  "serviceNodeRequest token =
     \<lparr>vars = [''service'' \<mapsto> ''reviews'', ''namespace'' \<mapsto> ''bookinfo''],
      params = [''graphType'' \<mapsto> [''service'']],
      tokenContext = Some (StringValue token)\<rparr>"

definition namespacesRequest :: "string \<Rightarrow> string \<Rightarrow> Request" where
  "namespacesRequest duration namespaces =
     \<lparr>vars = Map.empty,
      params = [''duration'' \<mapsto> [duration], ''namespaces'' \<mapsto> [namespaces]],
      tokenContext = Some (StringValue ''token'')\<rparr>"

section \<open>Properties\<close>

subsection \<open>The clamp rule\<close>

text \<open>
  C1. \<open>resolveNamespaceDuration\<close> returns the requested duration unchanged when the
  namespace creation time is the zero time; otherwise it returns the minimum of the
  requested duration and the lifetime \<open>ref - nsCreated\<close>, where \<open>ref\<close> is the time of
  \<open>queryTime\<close> when that is not 0 and the current time otherwise. A negative lifetime is
  returned as it is (for a requested duration that is not negative), and the lifetime is
  the exact difference whenever that fits a duration.
\<close>

theorem resolveNamespaceDuration_min:
  "resolveNamespaceDuration nsCreated d queryTime now =
     (if IsZero nsCreated then d
      else min d (Sub (if queryTime \<noteq> 0 then Unix queryTime 0 else now) nsCreated))
   \<and> (\<not> IsZero nsCreated \<and> 0 \<le> d
        \<and> Sub (if queryTime \<noteq> 0 then Unix queryTime 0 else now) nsCreated < 0 \<longrightarrow>
      resolveNamespaceDuration nsCreated d queryTime now =
        Sub (if queryTime \<noteq> 0 then Unix queryTime 0 else now) nsCreated)
   \<and> (minDuration \<le> nanosBetween (if queryTime \<noteq> 0 then Unix queryTime 0 else now) nsCreated
        \<and> nanosBetween (if queryTime \<noteq> 0 then Unix queryTime 0 else now) nsCreated \<le> maxDuration \<longrightarrow>
      Sub (if queryTime \<noteq> 0 then Unix queryTime 0 else now) nsCreated =
        nanosBetween (if queryTime \<noteq> 0 then Unix queryTime 0 else now) nsCreated)"
  by (simp add: resolveNamespaceDuration_def Let_def Sub_def min_def)

theorem resolveNamespaceDuration_min_witness:
  "\<not> IsZero (Unix 1000 0) \<and> (0::int) \<le> 600000000000
   \<and> Sub (Unix 400 0) (Unix 1000 0) < 0
   \<and> minDuration \<le> nanosBetween (Unix 400 0) (Unix 1000 0)
   \<and> nanosBetween (Unix 400 0) (Unix 1000 0) \<le> maxDuration
   \<and> resolveNamespaceDuration (Unix 1000 0) 600000000000 400 \<lparr>sec = 0, nsec = 0\<rparr>
       = - 600000000000
   \<and> Sub (Unix 400 0) (Unix 1000 0) = nanosBetween (Unix 400 0) (Unix 1000 0)"
  using resolveNamespaceDuration_min [of "Unix 1000 0" 600000000000 400 "\<lparr>sec = 0, nsec = 0\<rparr>"]
  by (simp add: IsZero_def Unix_def wrap64_def unixToInternal_def Sub_def nanosBetween_def
      minDuration_def maxDuration_def)

subsection \<open>Selection and order of the appenders\<close>

lemmas appenderName_defs =
  DeadNodeAppenderName_def IstioAppenderName_def ResponseTimeAppenderName_def
  SecurityPolicyAppenderName_def ServiceEntryAppenderName_def SidecarsCheckAppenderName_def
  UnusedNodeAppenderName_def

lemma bindE_Inr_iff: "bindE m f = Inr y \<longleftrightarrow> (\<exists>x. m = Inr x \<and> f x = Inr y)"
  by (cases m) (simp_all add: bindE_def)

lemma bindE_Inl_iff: "bindE m f = Inl e \<longleftrightarrow> m = Inl e \<or> (\<exists>x. m = Inr x \<and> f x = Inl e)"
  by (cases m) (simp_all add: bindE_def)

lemma Split_not_Nil: "Split s sep \<noteq> []"
  by (induction s) (auto split: list.splits)

lemma stageOrder_nonempty: "[] \<notin> set stageOrder"
  by (simp add: stageOrder_def appenderName_defs)

lemma requestAppenders_step:
  "requestAppenders (t # ts) m =
     (if TrimSpace t \<in> set stageOrder then requestAppenders ts (m(TrimSpace t \<mapsto> True))
      else if TrimSpace t = [] then requestAppenders ts m
      else Inl (BadRequest (''Invalid appender ['' @ TrimSpace t @ '']'')))"
  by (auto simp: stageOrder_def Let_def)

lemma requestAppenders_Inr:
  "requestAppenders ts m = Inr m' \<Longrightarrow>
     (\<forall>n. m' n \<noteq> None \<longleftrightarrow> m n \<noteq> None \<or> (n \<in> TrimSpace ` set ts \<and> n \<noteq> []))
     \<and> TrimSpace ` set ts \<subseteq> set stageOrder \<union> {[]}"
proof (induction ts arbitrary: m)
  case Nil
  then show ?case by simp
next
  case (Cons t ts)
  show ?case
  proof (cases "TrimSpace t \<in> set stageOrder")
    case True
    then have ne: "TrimSpace t \<noteq> []" using stageOrder_nonempty by auto
    from Cons.prems True have "requestAppenders ts (m(TrimSpace t \<mapsto> True)) = Inr m'"
      by (simp only: requestAppenders_step if_True)
    from Cons.IH [OF this] True ne show ?thesis by auto
  next
    case False
    with Cons.prems have e: "TrimSpace t = []" and "requestAppenders ts m = Inr m'"
      by (auto simp only: requestAppenders_step split: if_splits)
    from Cons.IH [OF this(2)] e show ?thesis by auto
  qed
qed

lemma requestAppenders_valid:
  "TrimSpace ` set ts \<subseteq> set stageOrder \<union> {[]} \<Longrightarrow> \<exists>m'. requestAppenders ts m = Inr m'"
proof (induction ts arbitrary: m)
  case Nil
  then show ?case by simp
next
  case (Cons t ts)
  then show ?case by (simp only: requestAppenders_step) auto
qed

lemma requestAppenders_invalid:
  "\<not> TrimSpace ` set ts \<subseteq> set stageOrder \<union> {[]} \<Longrightarrow> \<exists>msg. requestAppenders ts m = Inl (BadRequest msg)"
proof (induction ts arbitrary: m)
  case Nil
  then show ?case by simp
next
  case (Cons t ts)
  then show ?case by (simp only: requestAppenders_step) auto
qed

lemma buildAppenders_names:
  "map appenderName (buildAppenders env ps opts m all) =
     filter (\<lambda>n. m n \<noteq> None \<or> all) stageOrder"
  by (simp add: buildAppenders_def stageOrder_def Let_def)


lemma parseAppenders_Inr:
  "parseAppenders env ps opts = Inr as \<longleftrightarrow>
     (\<exists>m all. selectAppenders ps = Inr (m, all) \<and> as = buildAppenders env ps opts m all)"
  by (auto simp: parseAppenders_def bindE_Inr_iff)

lemma parseAppenders_Inl:
  "parseAppenders env ps opts = Inl e \<longleftrightarrow> selectAppenders ps = Inl e"
  by (auto simp: parseAppenders_def bindE_Inl_iff)

lemma selectAppenders_all:
  "ps ''appenders'' = None \<Longrightarrow> selectAppenders ps = Inr (Map.empty, True)"
  by (simp add: selectAppenders_def)

lemma selectAppenders_some:
  "ps ''appenders'' \<noteq> None \<Longrightarrow>
   selectAppenders ps = Inr (m, all) \<longleftrightarrow>
     requestAppenders (Split (Get ps ''appenders'') CHR '','') Map.empty = Inr m \<and> \<not> all"
  by (auto simp: selectAppenders_def bindE_Inr_iff)

lemma selectAppenders_some_Inl:
  "ps ''appenders'' \<noteq> None \<Longrightarrow>
   selectAppenders ps = Inl e \<longleftrightarrow>
     requestAppenders (Split (Get ps ''appenders'') CHR '','') Map.empty = Inl e"
  by (auto simp: selectAppenders_def bindE_Inl_iff)

lemma buildAppenders_cong:
  assumes "\<forall>n\<in>set stageOrder. (m1 n \<noteq> None) = (m2 n \<noteq> None)"
    and "responseTimeQuantile env ps1 = responseTimeQuantile env ps2"
  shows "buildAppenders env ps1 opts m1 all = buildAppenders env ps2 opts m2 all"
  using assms by (simp add: buildAppenders_def stageOrder_def)

lemma Get_upd_other: "k \<noteq> k' \<Longrightarrow> Get (ps(k' := v)) k = Get ps k"
  by (simp add: Get_def)

lemma Get_upd_same: "Get (ps(k \<mapsto> [b])) k = b"
  by (simp add: Get_def)

lemma responseTimeQuantile_appenders_upd:
  "responseTimeQuantile env (ps(''appenders'' := v)) = responseTimeQuantile env ps"
  by (cases "ps ''responseTimeQuantile''") (simp_all add: responseTimeQuantile_def Get_upd_other)

text \<open>
  C2. Whatever names are requested and in whatever order, the appenders that
  \<open>parseAppenders\<close> returns are the selected stages in the fixed order ServiceEntry,
  DeadNode, ResponseTime, SecurityPolicy, UnusedNode, Istio, SidecarsCheck (the list
  \<open>stageOrder\<close>, filtered to the selection); a request that names the same stages in
  another order gets the same appenders. Requesting \<open>sidecarsCheck,serviceEntry\<close> yields
  ServiceEntry, then SidecarsCheck.
\<close>

theorem parseAppenders_fixed_order:
  assumes "parseAppenders env ps opts = Inr as"
  shows "map appenderName as =
           filter (\<lambda>n. ps ''appenders'' = None \<or>
                        n \<in> TrimSpace ` set (Split (Get ps ''appenders'') CHR '','')) stageOrder
         \<and> (\<forall>b. ps ''appenders'' \<noteq> None \<and>
                  TrimSpace ` set (Split b CHR '','') =
                    TrimSpace ` set (Split (Get ps ''appenders'') CHR '','') \<longrightarrow>
                parseAppenders env (ps(''appenders'' \<mapsto> [b])) opts = Inr as)"
proof -
  from assms obtain m all where sel: "selectAppenders ps = Inr (m, all)"
    and as: "as = buildAppenders env ps opts m all"
    by (auto simp: parseAppenders_Inr)
  show ?thesis
  proof (cases "ps ''appenders''")
    case None
    with sel have "all" by (simp add: selectAppenders_all)
    with None as show ?thesis by (simp add: buildAppenders_names)
  next
    case (Some vs)
    let ?toks = "Split (Get ps ''appenders'') CHR '',''"
    from Some sel have req: "requestAppenders ?toks Map.empty = Inr m" and nall: "\<not> all"
      by (simp_all add: selectAppenders_some)
    note dom = requestAppenders_Inr [OF req]
    have names: "map appenderName as = filter (\<lambda>n. n \<in> TrimSpace ` set ?toks) stageOrder"
      unfolding as buildAppenders_names
    proof (rule filter_cong [OF refl])
      fix n assume "n \<in> set stageOrder"
      then have "n \<noteq> []" using stageOrder_nonempty by auto
      with dom nall show "(m n \<noteq> None \<or> all) = (n \<in> TrimSpace ` set ?toks)" by simp
    qed
    have perm: "parseAppenders env (ps(''appenders'' \<mapsto> [b])) opts = Inr as"
      if eq: "TrimSpace ` set (Split b CHR '','') = TrimSpace ` set ?toks" for b
    proof -
      let ?ps = "ps(''appenders'' \<mapsto> [b])"
      from dom eq have "TrimSpace ` set (Split b CHR '','') \<subseteq> set stageOrder \<union> {[]}" by simp
      from requestAppenders_valid [OF this] obtain m'
        where req': "requestAppenders (Split b CHR '','') Map.empty = Inr m'" by blast
      note dom' = requestAppenders_Inr [OF req']
      have sel': "selectAppenders ?ps = Inr (m', False)"
        using req' by (simp add: selectAppenders_some Get_upd_same)
      then have "parseAppenders env ?ps opts = Inr (buildAppenders env ?ps opts m' False)"
        by (simp add: parseAppenders_def bindE_def)
      moreover have "buildAppenders env ?ps opts m' False = buildAppenders env ps opts m False"
      proof (rule buildAppenders_cong)
        show "\<forall>n\<in>set stageOrder. (m' n \<noteq> None) = (m n \<noteq> None)"
          using dom dom' eq by simp
        show "responseTimeQuantile env ?ps = responseTimeQuantile env ps"
          by (rule responseTimeQuantile_appenders_upd)
      qed
      ultimately show ?thesis using as nall by simp
    qed
    from Some names perm show ?thesis by simp
  qed
qed


theorem parseAppenders_fixed_order_witness:
  "parseAppenders exampleEnv [''appenders'' \<mapsto> [''sidecarsCheck,serviceEntry'']] exampleOptions =
     Inr [ServiceEntryAppender (AccessibleNamespaces exampleOptions), SidecarsCheckAppender]
   \<and> map appenderName [ServiceEntryAppender (AccessibleNamespaces exampleOptions), SidecarsCheckAppender :: real Appender] =
       [''serviceEntry'', ''sidecarsCheck'']
   \<and> parseAppenders exampleEnv [''appenders'' \<mapsto> [''serviceEntry,sidecarsCheck'']] exampleOptions =
     Inr [ServiceEntryAppender (AccessibleNamespaces exampleOptions), SidecarsCheckAppender]"
proof -
  let ?ps = "[''appenders'' \<mapsto> [''sidecarsCheck,serviceEntry'']]"
  let ?as = "[ServiceEntryAppender (AccessibleNamespaces exampleOptions), SidecarsCheckAppender :: real Appender]"
  have s1: "Split ''sidecarsCheck,serviceEntry'' CHR '','' = [''sidecarsCheck'', ''serviceEntry'']"
    by code_simp
  have s2: "Split ''serviceEntry,sidecarsCheck'' CHR '','' = [''serviceEntry'', ''sidecarsCheck'']"
    by code_simp
  have t1: "TrimSpace ''sidecarsCheck'' = ''sidecarsCheck''" by code_simp
  have t2: "TrimSpace ''serviceEntry'' = ''serviceEntry''" by code_simp
  have run: "parseAppenders exampleEnv ?ps exampleOptions = Inr ?as"
    by (simp add: parseAppenders_def selectAppenders_def bindE_def Get_def s1 t1 t2
        buildAppenders_def appenderName_defs) blast
  have toks: "TrimSpace ` set (Split ''serviceEntry,sidecarsCheck'' CHR '','') =
              TrimSpace ` set (Split (Get ?ps ''appenders'') CHR '','')"
    by (simp add: Get_def s1 s2 t1 t2 insert_commute)
  from parseAppenders_fixed_order [OF run] toks
  have "map appenderName ?as =
          filter (\<lambda>n. ?ps ''appenders'' = None \<or>
                       n \<in> TrimSpace ` set (Split (Get ?ps ''appenders'') CHR '','')) stageOrder"
    and "parseAppenders exampleEnv (?ps(''appenders'' \<mapsto> [''serviceEntry,sidecarsCheck''])) exampleOptions = Inr ?as"
    by simp_all
  with run show ?thesis
    by (simp add: Get_def s1 t1 t2 stageOrder_def appenderName_defs)
qed

lemma buildAppenders_all:
  "buildAppenders env ps opts m True =
     [ServiceEntryAppender (AccessibleNamespaces opts),
      DeadNodeAppender,
      ResponseTimeAppender (responseTimeQuantile env ps) (GraphType (VendorOptions opts))
        (InjectServiceNodes opts) (IncludeIstio opts) (Namespaces opts)
        (QueryTime (VendorOptions opts)),
      SecurityPolicyAppender (GraphType (VendorOptions opts)) (IncludeIstio opts)
        (InjectServiceNodes opts) (Namespaces opts) (QueryTime (VendorOptions opts)),
      UnusedNodeAppender (GraphType (VendorOptions opts))
        (App (NodeOptions opts) \<noteq> [] \<or> Workload (NodeOptions opts) \<noteq> [] \<or>
         Service (NodeOptions opts) \<noteq> []),
      IstioAppender,
      SidecarsCheckAppender]"
  by (simp add: buildAppenders_def)

lemma parseAppenders_run:
  "selectAppenders ps = Inr (m, all) \<Longrightarrow>
   parseAppenders env ps opts = Inr (buildAppenders env ps opts m all)"
  by (simp add: parseAppenders_def bindE_def)

lemma stageOrder_distinct: "distinct stageOrder"
  by (simp add: stageOrder_def appenderName_defs)

lemma requestAppenders_Inl:
  "requestAppenders ts m = Inl e \<Longrightarrow>
     \<exists>t\<in>set ts. TrimSpace t \<notin> set stageOrder \<union> {[]} \<and>
       e = BadRequest (''Invalid appender ['' @ TrimSpace t @ '']'')"
proof (induction ts arbitrary: m)
  case Nil
  then show ?case by simp
next
  case (Cons t ts)
  then show ?case
    by (simp only: requestAppenders_step split: if_splits) auto
qed

text \<open>
  C4. Appender selection. When the request has no \<open>appenders\<close> parameter, all seven
  stages are selected. When it has one whose pieces, trimmed of white space, are names of
  stages or empty, exactly the named stages are selected, each once; so an \<open>appenders\<close>
  parameter that is empty or a single space yields no appender. When a piece is neither,
  the resolution fails with BadRequest, naming such a piece.
\<close>

theorem parseAppenders_selection:
  "(ps ''appenders'' = None \<longrightarrow>
      parseAppenders env ps opts =
        Inr [ServiceEntryAppender (AccessibleNamespaces opts),
             DeadNodeAppender,
             ResponseTimeAppender (responseTimeQuantile env ps) (GraphType (VendorOptions opts))
               (InjectServiceNodes opts) (IncludeIstio opts) (Namespaces opts)
               (QueryTime (VendorOptions opts)),
             SecurityPolicyAppender (GraphType (VendorOptions opts)) (IncludeIstio opts)
               (InjectServiceNodes opts) (Namespaces opts) (QueryTime (VendorOptions opts)),
             UnusedNodeAppender (GraphType (VendorOptions opts))
               (App (NodeOptions opts) \<noteq> [] \<or> Workload (NodeOptions opts) \<noteq> [] \<or>
                Service (NodeOptions opts) \<noteq> []),
             IstioAppender,
             SidecarsCheckAppender])
   \<and> (ps ''appenders'' \<noteq> None \<and>
        TrimSpace ` set (Split (Get ps ''appenders'') CHR '','') \<subseteq> set stageOrder \<union> {[]} \<longrightarrow>
      (\<exists>as. parseAppenders env ps opts = Inr as \<and> distinct (map appenderName as) \<and>
         set (map appenderName as) =
           TrimSpace ` set (Split (Get ps ''appenders'') CHR '','') - {[]}))
   \<and> (ps ''appenders'' \<noteq> None \<and> (Get ps ''appenders'' = [] \<or> Get ps ''appenders'' = '' '') \<longrightarrow>
      parseAppenders env ps opts = Inr [])
   \<and> (ps ''appenders'' \<noteq> None \<and>
        \<not> TrimSpace ` set (Split (Get ps ''appenders'') CHR '','') \<subseteq> set stageOrder \<union> {[]} \<longrightarrow>
      (\<exists>t\<in>set (Split (Get ps ''appenders'') CHR '','').
         TrimSpace t \<notin> set stageOrder \<union> {[]} \<and>
         parseAppenders env ps opts =
           Inl (BadRequest (''Invalid appender ['' @ TrimSpace t @ '']''))))"
proof (intro conjI impI)
  assume "ps ''appenders'' = None"
  then show "parseAppenders env ps opts =
        Inr [ServiceEntryAppender (AccessibleNamespaces opts),
             DeadNodeAppender,
             ResponseTimeAppender (responseTimeQuantile env ps) (GraphType (VendorOptions opts))
               (InjectServiceNodes opts) (IncludeIstio opts) (Namespaces opts)
               (QueryTime (VendorOptions opts)),
             SecurityPolicyAppender (GraphType (VendorOptions opts)) (IncludeIstio opts)
               (InjectServiceNodes opts) (Namespaces opts) (QueryTime (VendorOptions opts)),
             UnusedNodeAppender (GraphType (VendorOptions opts))
               (App (NodeOptions opts) \<noteq> [] \<or> Workload (NodeOptions opts) \<noteq> [] \<or>
                Service (NodeOptions opts) \<noteq> []),
             IstioAppender,
             SidecarsCheckAppender]"
    by (simp add: parseAppenders_run [OF selectAppenders_all] buildAppenders_all)
next
  let ?toks = "Split (Get ps ''appenders'') CHR '',''"
  assume a: "ps ''appenders'' \<noteq> None \<and> TrimSpace ` set ?toks \<subseteq> set stageOrder \<union> {[]}"
  from requestAppenders_valid [of ?toks Map.empty] a obtain m
    where req: "requestAppenders ?toks Map.empty = Inr m" by blast
  let ?as = "buildAppenders env ps opts m False"
  from a req have "selectAppenders ps = Inr (m, False)"
    by (simp add: selectAppenders_some)
  then have run: "parseAppenders env ps opts = Inr ?as"
    by (rule parseAppenders_run)
  have names: "map appenderName ?as = filter (\<lambda>n. m n \<noteq> None) stageOrder"
    by (simp add: buildAppenders_names)
  have "distinct (map appenderName ?as)"
    unfolding names using stageOrder_distinct by simp
  moreover have "set (map appenderName ?as) = TrimSpace ` set ?toks - {[]}"
    unfolding names using requestAppenders_Inr [OF req] stageOrder_nonempty by auto
  ultimately show "\<exists>as. parseAppenders env ps opts = Inr as \<and> distinct (map appenderName as) \<and>
         set (map appenderName as) = TrimSpace ` set ?toks - {[]}"
    using run by blast
next
  assume a: "ps ''appenders'' \<noteq> None \<and> (Get ps ''appenders'' = [] \<or> Get ps ''appenders'' = '' '')"
  have t0: "TrimSpace [] = []" by code_simp
  have t1: "TrimSpace '' '' = []" by code_simp
  from a have "requestAppenders (Split (Get ps ''appenders'') CHR '','') Map.empty = Inr Map.empty"
    by (auto simp: t0 t1 appenderName_defs)
  with a have "selectAppenders ps = Inr (Map.empty, False)"
    by (simp add: selectAppenders_some)
  from parseAppenders_run [OF this] show "parseAppenders env ps opts = Inr []"
    by (simp add: buildAppenders_def)
next
  let ?toks = "Split (Get ps ''appenders'') CHR '',''"
  assume a: "ps ''appenders'' \<noteq> None \<and> \<not> TrimSpace ` set ?toks \<subseteq> set stageOrder \<union> {[]}"
  from requestAppenders_invalid [of ?toks Map.empty] a obtain msg
    where "requestAppenders ?toks Map.empty = Inl (BadRequest msg)" by blast
  from requestAppenders_Inl [OF this] obtain t where "t \<in> set ?toks"
    and "TrimSpace t \<notin> set stageOrder \<union> {[]}"
    and "msg = ''Invalid appender ['' @ TrimSpace t @ '']''" by auto
  with \<open>requestAppenders ?toks Map.empty = Inl (BadRequest msg)\<close> a
  show "\<exists>t\<in>set ?toks. TrimSpace t \<notin> set stageOrder \<union> {[]} \<and>
         parseAppenders env ps opts = Inl (BadRequest (''Invalid appender ['' @ TrimSpace t @ '']''))"
    by (auto simp: parseAppenders_Inl selectAppenders_some_Inl)
qed


theorem parseAppenders_selection_witness:
  "map appenderName (projr (parseAppenders exampleEnv Map.empty exampleOptions)) =
     [''serviceEntry'', ''deadNode'', ''responseTime'', ''securityPolicy'', ''unusedNode'',
      ''istio'', ''sidecarsCheck'']
   \<and> (\<exists>as. parseAppenders exampleEnv [''appenders'' \<mapsto> [''istio, deadNode'']] exampleOptions = Inr as \<and>
          distinct (map appenderName as) \<and>
          set (map appenderName as) = {''istio'', ''deadNode''})
   \<and> parseAppenders exampleEnv [''appenders'' \<mapsto> ['' '']] exampleOptions = Inr []
   \<and> parseAppenders exampleEnv [''appenders'' \<mapsto> [''istio,bogus'']] exampleOptions =
       Inl (BadRequest ''Invalid appender [bogus]'')"
proof -
  have s1: "Split ''istio, deadNode'' CHR '','' = [''istio'', '' deadNode'']" by code_simp
  have s2: "Split ''istio,bogus'' CHR '','' = [''istio'', ''bogus'']" by code_simp
  have t1: "TrimSpace ''istio'' = ''istio''" by code_simp
  have t2: "TrimSpace '' deadNode'' = ''deadNode''" by code_simp
  have t3: "TrimSpace ''bogus'' = ''bogus''" by code_simp
  have c1: "map appenderName (projr (parseAppenders exampleEnv Map.empty exampleOptions)) =
     [''serviceEntry'', ''deadNode'', ''responseTime'', ''securityPolicy'', ''unusedNode'',
      ''istio'', ''sidecarsCheck'']"
    using parseAppenders_selection [where ps = Map.empty and env = exampleEnv and opts = exampleOptions]
    by (simp add: appenderName_defs)
  have c2: "\<exists>as. parseAppenders exampleEnv [''appenders'' \<mapsto> [''istio, deadNode'']] exampleOptions = Inr as \<and>
          distinct (map appenderName as) \<and>
          set (map appenderName as) = {''istio'', ''deadNode''}"
    using parseAppenders_selection [where ps = "[''appenders'' \<mapsto> [''istio, deadNode'']]"
        and env = exampleEnv and opts = exampleOptions]
    by (simp add: Get_def s1 t1 t2 stageOrder_def appenderName_defs)
  have c3: "parseAppenders exampleEnv [''appenders'' \<mapsto> ['' '']] exampleOptions = Inr []"
    using parseAppenders_selection [where ps = "[''appenders'' \<mapsto> ['' '']]"
        and env = exampleEnv and opts = exampleOptions]
    by (simp add: Get_def)
  have c4: "parseAppenders exampleEnv [''appenders'' \<mapsto> [''istio,bogus'']] exampleOptions =
       Inl (BadRequest ''Invalid appender [bogus]'')"
    using parseAppenders_selection [where ps = "[''appenders'' \<mapsto> [''istio,bogus'']]"
        and env = exampleEnv and opts = exampleOptions]
    by (simp add: Get_def s2 t1 t3 stageOrder_def appenderName_defs)
  from c1 c2 c3 c4 show ?thesis by blast
qed

subsection \<open>Resolution of the options\<close>

lemma bindE_InrE:
  assumes "bindE m f = Inr y"
  obtains x where "m = Inr x" and "f x = Inr y"
  using assms by (auto simp: bindE_Inr_iff)

lemma resolveQueryParams_Inr:
  "resolveQueryParams env r =
     Inr (duration, graphType, groupBy, includeIstio, injectServiceNodes, (queryTime, readings), vendor) \<longleftrightarrow>
   resolveDuration env (Get (params r) ''duration'') = Inr duration \<and>
   resolveGraphType (Get (params r) ''graphType'') = Inr graphType \<and>
   checkAppGraphType (lookupVar (vars r) ''app'') graphType = Inr () \<and>
   resolveGroupBy (Get (params r) ''groupBy'') = Inr groupBy \<and>
   resolveIncludeIstio (Get (params r) ''includeIstio'') = Inr includeIstio \<and>
   resolveInjectServiceNodes (Get (params r) ''injectServiceNodes'') = Inr injectServiceNodes \<and>
   resolveQueryTime env (Get (params r) ''queryTime'') = Inr (queryTime, readings) \<and>
   resolveVendor (Get (params r) ''vendor'') = Inr vendor"
  by (auto simp: resolveQueryParams_def Let_def bindE_Inr_iff)

lemma resolveOptions_run:
  assumes "resolveQueryParams env r =
        Inr (duration, graphType, groupBy, includeIstio, injectServiceNodes,
             (queryTime, readings), vendor)"
    and "resolveToken (tokenContext r) = Inr token"
    and "getAccessibleNamespaces env token = Inr accessibleNamespaces"
    and "requestedNamespaces (lookupVar (vars r) ''namespace'') (Get (params r) ''namespaces'') =
        Inr namespaces"
  shows "resolveOptions env r =
     bindE (resolveNamespaces env accessibleNamespaces duration queryTime
              (Split namespaces CHR '','') (Map.empty, readings))
       (\<lambda>(namespaceMap, k). Inr
        \<lparr>AccessibleNamespaces = accessibleNamespaces,
         Appenders = [],
         IncludeIstio = includeIstio,
         InjectServiceNodes = (if graphType = GraphTypeService then True else injectServiceNodes),
         Namespaces = namespaceMap,
         Vendor = vendor,
         NodeOptions =
           \<lparr>App = lookupVar (vars r) ''app'', Namespace = lookupVar (vars r) ''namespace'',
            Service = lookupVar (vars r) ''service'', Version = lookupVar (vars r) ''version'',
            Workload = lookupVar (vars r) ''workload''\<rparr>,
         VendorOptions =
           \<lparr>Duration = duration, GraphType = graphType, GroupBy = groupBy,
            QueryTime = queryTime\<rparr>\<rparr>)"
  using assms by (simp add: resolveOptions_def Let_def bindE_def)

lemma resolveOptions_InrE:
  assumes "resolveOptions env r = Inr options"
  obtains duration graphType groupBy includeIstio injectServiceNodes queryTime readings vendor
      token accessibleNamespaces namespaces namespaceMap k
  where "resolveQueryParams env r =
        Inr (duration, graphType, groupBy, includeIstio, injectServiceNodes,
             (queryTime, readings), vendor)"
    and "resolveToken (tokenContext r) = Inr token"
    and "getAccessibleNamespaces env token = Inr accessibleNamespaces"
    and "requestedNamespaces (lookupVar (vars r) ''namespace'') (Get (params r) ''namespaces'') =
        Inr namespaces"
    and "resolveNamespaces env accessibleNamespaces duration queryTime
        (Split namespaces CHR '','') (Map.empty, readings) = Inr (namespaceMap, k)"
    and "options =
        \<lparr>AccessibleNamespaces = accessibleNamespaces,
         Appenders = [],
         IncludeIstio = includeIstio,
         InjectServiceNodes = (if graphType = GraphTypeService then True else injectServiceNodes),
         Namespaces = namespaceMap,
         Vendor = vendor,
         NodeOptions =
           \<lparr>App = lookupVar (vars r) ''app'', Namespace = lookupVar (vars r) ''namespace'',
            Service = lookupVar (vars r) ''service'', Version = lookupVar (vars r) ''version'',
            Workload = lookupVar (vars r) ''workload''\<rparr>,
         VendorOptions =
           \<lparr>Duration = duration, GraphType = graphType, GroupBy = groupBy,
            QueryTime = queryTime\<rparr>\<rparr>"
proof -
  from assms obtain q where q: "resolveQueryParams env r = Inr q"
    unfolding resolveOptions_def Let_def by (elim bindE_InrE)
  obtain duration graphType groupBy includeIstio injectServiceNodes queryTime readings vendor
    where qq: "q = (duration, graphType, groupBy, includeIstio, injectServiceNodes,
             (queryTime, readings), vendor)"
    by (metis surj_pair)
  from assms q qq obtain token where t: "resolveToken (tokenContext r) = Inr token"
    unfolding resolveOptions_def Let_def by (simp add: bindE_def split: sum.splits)
  from assms q qq t obtain acc where a: "getAccessibleNamespaces env token = Inr acc"
    unfolding resolveOptions_def Let_def by (simp add: bindE_def split: sum.splits)
  from assms q qq t a obtain namespaces where
    n: "requestedNamespaces (lookupVar (vars r) ''namespace'') (Get (params r) ''namespaces'') = Inr namespaces"
    unfolding resolveOptions_def Let_def by (simp add: bindE_def split: sum.splits)
  note run = resolveOptions_run [OF q [unfolded qq] t a n]
  from assms have "\<exists>namespaceMap k.
      resolveNamespaces env acc duration queryTime (Split namespaces CHR '','')
        (Map.empty, readings) = Inr (namespaceMap, k) \<and>
      options =
        \<lparr>AccessibleNamespaces = acc,
         Appenders = [],
         IncludeIstio = includeIstio,
         InjectServiceNodes = (if graphType = GraphTypeService then True else injectServiceNodes),
         Namespaces = namespaceMap,
         Vendor = vendor,
         NodeOptions =
           \<lparr>App = lookupVar (vars r) ''app'', Namespace = lookupVar (vars r) ''namespace'',
            Service = lookupVar (vars r) ''service'', Version = lookupVar (vars r) ''version'',
            Workload = lookupVar (vars r) ''workload''\<rparr>,
         VendorOptions =
           \<lparr>Duration = duration, GraphType = graphType, GroupBy = groupBy,
            QueryTime = queryTime\<rparr>\<rparr>"
    unfolding run bindE_Inr_iff by (cases "graphType = GraphTypeService") auto
  then obtain namespaceMap k where
    "resolveNamespaces env acc duration queryTime (Split namespaces CHR '','')
        (Map.empty, readings) = Inr (namespaceMap, k)"
    and "options =
        \<lparr>AccessibleNamespaces = acc,
         Appenders = [],
         IncludeIstio = includeIstio,
         InjectServiceNodes = (if graphType = GraphTypeService then True else injectServiceNodes),
         Namespaces = namespaceMap,
         Vendor = vendor,
         NodeOptions =
           \<lparr>App = lookupVar (vars r) ''app'', Namespace = lookupVar (vars r) ''namespace'',
            Service = lookupVar (vars r) ''service'', Version = lookupVar (vars r) ''version'',
            Workload = lookupVar (vars r) ''workload''\<rparr>,
         VendorOptions =
           \<lparr>Duration = duration, GraphType = graphType, GroupBy = groupBy,
            QueryTime = queryTime\<rparr>\<rparr>"
    by blast
  with q qq t a n show ?thesis by (intro that) simp_all
qed

lemma NewOptions_InrE:
  assumes "NewOptions env r = Inr opts"
  obtains options as where "resolveOptions env r = Inr options"
    and "parseAppenders env (params r) options = Inr as"
    and "opts = options\<lparr>Appenders := as\<rparr>"
  using assms by (auto simp: NewOptions_def bindE_Inr_iff)

lemma NewOptions_Inl:
  "NewOptions env r = Inl e \<longleftrightarrow>
   resolveOptions env r = Inl e \<or>
   (\<exists>options. resolveOptions env r = Inr options \<and> parseAppenders env (params r) options = Inl e)"
  by (auto simp: NewOptions_def bindE_Inl_iff)

lemma resolveGraphType_service: "resolveGraphType ''service'' = Inr GraphTypeService"
  by (simp add: resolveGraphType_def GraphTypeApp_def GraphTypeService_def)

text \<open>
  C5. A request with \<open>graphType=service\<close> that resolves successfully has
  \<open>InjectServiceNodes\<close> set in its options, whatever its \<open>injectServiceNodes\<close> parameter
  says, \<open>injectServiceNodes=false\<close> included.
\<close>

theorem service_graph_injects_service_nodes:
  assumes "NewOptions env r = Inr opts"
    and "Get (params r) ''graphType'' = ''service''"
  shows "InjectServiceNodes opts"
proof -
  from assms(1) obtain options as where ro: "resolveOptions env r = Inr options"
    and opts: "opts = options\<lparr>Appenders := as\<rparr>"
    by (rule NewOptions_InrE)
  from ro obtain duration graphType groupBy includeIstio injectServiceNodes queryTime readings vendor
    where q: "resolveQueryParams env r =
        Inr (duration, graphType, groupBy, includeIstio, injectServiceNodes,
             (queryTime, readings), vendor)"
      and inj: "InjectServiceNodes options =
                  (if graphType = GraphTypeService then True else injectServiceNodes)"
    by (rule resolveOptions_InrE) simp
  from q assms(2) have "graphType = GraphTypeService"
    by (simp add: resolveQueryParams_Inr resolveGraphType_service)
  with inj opts show ?thesis by simp
qed

lemma resolveNamespaces_Inr:
  "resolveNamespaces env acc d qt pieces (m, k) = Inr (m', k') \<Longrightarrow>
     dom m' = dom m \<union> TrimSpace ` set pieces \<and> TrimSpace ` set pieces \<subseteq> dom acc"
proof (induction pieces arbitrary: m k)
  case Nil
  then show ?case by simp
next
  case (Cons p ps)
  from Cons.prems obtain c where c: "acc (TrimSpace p) = Some c"
    by (cases "acc (TrimSpace p)") (simp_all add: Let_def)
  with Cons.prems have "resolveNamespaces env acc d qt ps
      (m(TrimSpace p \<mapsto> \<lparr>ns_Name = TrimSpace p,
          ns_Duration = resolveNamespaceDuration c d qt (clock env k)\<rparr>),
       k + clockReadings c qt) = Inr (m', k')"
    by (simp add: Let_def)
  from Cons.IH [OF this] c show ?case by auto
qed

lemma requestedNamespaces_Inr:
  "requestedNamespaces (lookupVar (vars r) ''namespace'') (Get (params r) ''namespaces'') = Inr namespaces
   \<longleftrightarrow> namespaces = effectiveNamespaces r \<and> effectiveNamespaces r \<noteq> []"
  by (auto simp: requestedNamespaces_def effectiveNamespaces_def Let_def)

lemma target_namespaces_dom:
  assumes "NewOptions env r = Inr opts"
  shows "effectiveNamespaces r \<noteq> []
       \<and> dom (Namespaces opts) = TrimSpace ` set (Split (effectiveNamespaces r) CHR '','')
       \<and> dom (Namespaces opts) \<subseteq> dom (AccessibleNamespaces opts)"
proof -
  from assms obtain options as where ro: "resolveOptions env r = Inr options"
    and opts: "opts = options\<lparr>Appenders := as\<rparr>"
    by (rule NewOptions_InrE)
  from ro obtain duration queryTime readings accessibleNamespaces namespaces namespaceMap k
    where n: "requestedNamespaces (lookupVar (vars r) ''namespace'') (Get (params r) ''namespaces'') =
        Inr namespaces"
      and l: "resolveNamespaces env accessibleNamespaces duration queryTime
        (Split namespaces CHR '','') (Map.empty, readings) = Inr (namespaceMap, k)"
      and o: "Namespaces options = namespaceMap" "AccessibleNamespaces options = accessibleNamespaces"
    by (rule resolveOptions_InrE) simp
  from n have e: "namespaces = effectiveNamespaces r" "effectiveNamespaces r \<noteq> []"
    by (simp_all add: requestedNamespaces_Inr)
  from resolveNamespaces_Inr [OF l]
  have d: "dom namespaceMap = TrimSpace ` set (Split namespaces CHR '','')"
    and s: "TrimSpace ` set (Split namespaces CHR '','') \<subseteq> dom accessibleNamespaces"
    by simp_all
  from d s e o opts show ?thesis by simp
qed


lemmas resolve_defs =
  NewOptions_def resolveOptions_def resolveQueryParams_def Let_def bindE_def
  resolveDuration_def resolveGraphType_def checkAppGraphType_def resolveGroupBy_def
  resolveIncludeIstio_def resolveInjectServiceNodes_def resolveQueryTime_def resolveVendor_def
  resolveToken_def getAccessibleNamespaces_def requestedNamespaces_def
  Get_def lookupVar_def ParseBool_def
  defaultDuration_def defaultGraphType_def defaultGroupBy_def defaultIncludeIstio_def
  defaultInjectServiceNodes_def defaultVendor_def
  GraphTypeApp_def GraphTypeService_def GraphTypeVersionedApp_def GraphTypeWorkload_def
  GroupByApp_def GroupByNone_def GroupByVersion_def VendorCytoscape_def
  parseAppenders_def selectAppenders_def

lemma TrimSpace_bookinfo: "TrimSpace ''bookinfo'' = ''bookinfo''"
  by code_simp

lemma Split_bookinfo: "Split ''bookinfo'' CHR '','' = [''bookinfo'']"
  by code_simp

theorem service_graph_injects_service_nodes_witness:
  "\<exists>opts. NewOptions exampleEnv serviceGraphRequest = Inr opts
     \<and> Get (params serviceGraphRequest) ''graphType'' = ''service''
     \<and> Get (params serviceGraphRequest) ''injectServiceNodes'' = ''false''
     \<and> InjectServiceNodes opts"
proof -
  have "\<exists>opts. NewOptions exampleEnv serviceGraphRequest = (Inr opts :: error + real Options)"
    by (simp add: resolve_defs exampleEnv_def serviceGraphRequest_def
        TrimSpace_bookinfo Split_bookinfo)
  then obtain opts where run: "NewOptions exampleEnv serviceGraphRequest = Inr opts" ..
  have g: "Get (params serviceGraphRequest) ''graphType'' = ''service''"
    by (simp add: serviceGraphRequest_def Get_def)
  have i: "Get (params serviceGraphRequest) ''injectServiceNodes'' = ''false''"
    by (simp add: serviceGraphRequest_def Get_def)
  from service_graph_injects_service_nodes [OF run g] run g i show ?thesis by blast
qed

text \<open>
  C7. The options of a successful resolution have at least one target namespace: the
  request names namespaces, the target namespaces are exactly the pieces of that list
  (trimmed of white space), and each of them is accessible to the caller.
\<close>

theorem target_namespaces_nonempty:
  assumes "NewOptions env r = Inr opts"
  shows "dom (Namespaces opts) \<noteq> {}
       \<and> effectiveNamespaces r \<noteq> []
       \<and> dom (Namespaces opts) = TrimSpace ` set (Split (effectiveNamespaces r) CHR '','')
       \<and> dom (Namespaces opts) \<subseteq> dom (AccessibleNamespaces opts)"
proof -
  note d = target_namespaces_dom [OF assms]
  have "set (Split (effectiveNamespaces r) CHR '','') \<noteq> {}"
    using Split_not_Nil [of "effectiveNamespaces r" "CHR '',''"] by simp
  with d have "dom (Namespaces opts) \<noteq> {}" by simp
  with d show ?thesis by blast
qed

theorem target_namespaces_nonempty_witness:
  "\<exists>opts. NewOptions exampleEnv serviceGraphRequest = Inr opts
     \<and> dom (Namespaces opts) \<noteq> {}
     \<and> dom (Namespaces opts) = {''bookinfo''}
     \<and> dom (Namespaces opts) \<subseteq> dom (AccessibleNamespaces opts)"
proof -
  have "\<exists>opts. NewOptions exampleEnv serviceGraphRequest = (Inr opts :: error + real Options)"
    by (simp add: resolve_defs exampleEnv_def serviceGraphRequest_def
        TrimSpace_bookinfo Split_bookinfo)
  then obtain opts where run: "NewOptions exampleEnv serviceGraphRequest = Inr opts" ..
  have e: "effectiveNamespaces serviceGraphRequest = ''bookinfo''"
    by (simp add: effectiveNamespaces_def serviceGraphRequest_def Get_def lookupVar_def)
  note t = target_namespaces_nonempty [OF run]
  from t have "dom (Namespaces opts) \<noteq> {}" by (rule conjunct1)
  moreover from t have "dom (Namespaces opts) = {''bookinfo''}"
    by (simp add: e TrimSpace_bookinfo Split_bookinfo)
  moreover from t have "dom (Namespaces opts) \<subseteq> dom (AccessibleNamespaces opts)"
    by (elim conjE)
  ultimately show ?thesis using run by blast
qed

subsection \<open>Parameters that are not read\<close>

lemma selectAppenders_upd_other:
  "k \<noteq> ''appenders'' \<Longrightarrow> selectAppenders (ps(k := v)) = selectAppenders ps"
  by (simp add: selectAppenders_def Get_def split: option.splits)

lemma responseTimeQuantile_upd_other:
  "k \<noteq> ''responseTimeQuantile'' \<Longrightarrow>
   responseTimeQuantile env (ps(k := v)) = responseTimeQuantile env ps"
  by (simp add: responseTimeQuantile_def Get_def split: option.splits)

lemma buildAppenders_upd_other:
  "k \<noteq> ''responseTimeQuantile'' \<Longrightarrow>
   buildAppenders env (ps(k := v)) opts m all = buildAppenders env ps opts m all"
  by (simp add: buildAppenders_def responseTimeQuantile_upd_other)

lemma parseAppenders_upd_other:
  "k \<noteq> ''appenders'' \<Longrightarrow> k \<noteq> ''responseTimeQuantile'' \<Longrightarrow>
   parseAppenders env (ps(k := v)) opts = parseAppenders env ps opts"
  by (simp add: parseAppenders_def selectAppenders_upd_other buildAppenders_upd_other)

lemma resolveQueryParams_namespaces_upd:
  "resolveQueryParams env (r\<lparr>params := (params r)(''namespaces'' := v)\<rparr>) =
   resolveQueryParams env r"
  by (simp add: resolveQueryParams_def Let_def Get_upd_other)

lemma resolveOptions_namespaces_upd:
  assumes "lookupVar (vars r) ''namespace'' \<noteq> []"
  shows "resolveOptions env (r\<lparr>params := (params r)(''namespaces'' := v)\<rparr>) =
         resolveOptions env r"
  using assms
  by (simp add: resolveOptions_def Let_def resolveQueryParams_namespaces_upd requestedNamespaces_def)

text \<open>
  C10. When the \<open>namespace\<close> path variable is set, the \<open>namespaces\<close> query parameter is
  ignored: whatever it holds, or whether it is there at all, the resolution gives the
  same result, and on success the target namespaces are the pieces of the path variable
  alone.
\<close>

theorem namespace_path_variable_overrides:
  assumes "lookupVar (vars r) ''namespace'' \<noteq> []"
  shows "NewOptions env (r\<lparr>params := (params r)(''namespaces'' := v)\<rparr>) = NewOptions env r
       \<and> (\<forall>opts. NewOptions env r = Inr opts \<longrightarrow>
            dom (Namespaces opts) =
              TrimSpace ` set (Split (lookupVar (vars r) ''namespace'') CHR '',''))"
proof
  show "NewOptions env (r\<lparr>params := (params r)(''namespaces'' := v)\<rparr>) = NewOptions env r"
    using assms
    by (simp add: NewOptions_def resolveOptions_namespaces_upd parseAppenders_upd_other)
next
  from assms have eff: "effectiveNamespaces r = lookupVar (vars r) ''namespace''"
    by (simp add: effectiveNamespaces_def)
  show "\<forall>opts. NewOptions env r = Inr opts \<longrightarrow>
            dom (Namespaces opts) =
              TrimSpace ` set (Split (lookupVar (vars r) ''namespace'') CHR '','')"
  proof (intro allI impI)
    fix opts :: "'a Options"
    assume "NewOptions env r = Inr opts"
    from target_namespaces_dom [OF this] eff
    show "dom (Namespaces opts) =
            TrimSpace ` set (Split (lookupVar (vars r) ''namespace'') CHR '','')"
      by simp
  qed
qed

theorem namespace_path_variable_overrides_witness:
  "lookupVar (vars nodeNamespaceRequest) ''namespace'' = ''bookinfo''
   \<and> Get (params nodeNamespaceRequest) ''namespaces'' = ''secret''
   \<and> (\<exists>accessible. getAccessibleNamespaces exampleEnv ''token'' = Inr accessible \<and>
          accessible ''secret'' = None)
   \<and> NewOptions exampleEnv (nodeNamespaceRequest\<lparr>params := (params nodeNamespaceRequest)(''namespaces'' := None)\<rparr>)
       = NewOptions exampleEnv nodeNamespaceRequest
   \<and> (\<exists>opts. NewOptions exampleEnv nodeNamespaceRequest = Inr opts \<and> dom (Namespaces opts) = {''bookinfo''})"
proof -
  have v: "lookupVar (vars nodeNamespaceRequest) ''namespace'' = ''bookinfo''"
    by (simp add: nodeNamespaceRequest_def lookupVar_def)
  then have ne: "lookupVar (vars nodeNamespaceRequest) ''namespace'' \<noteq> []" by simp
  have g: "Get (params nodeNamespaceRequest) ''namespaces'' = ''secret''"
    by (simp add: nodeNamespaceRequest_def Get_def)
  have a: "\<exists>accessible. getAccessibleNamespaces exampleEnv ''token'' = Inr accessible \<and>
          accessible ''secret'' = None"
    by (simp add: getAccessibleNamespaces_def exampleEnv_def)
  have "\<exists>opts. NewOptions exampleEnv nodeNamespaceRequest = (Inr opts :: error + real Options)"
    by (simp add: resolve_defs exampleEnv_def nodeNamespaceRequest_def
        TrimSpace_bookinfo Split_bookinfo)
  then obtain opts where run: "NewOptions exampleEnv nodeNamespaceRequest = Inr opts" ..
  from namespace_path_variable_overrides [OF ne, of exampleEnv None] run
  have "NewOptions exampleEnv (nodeNamespaceRequest\<lparr>params := (params nodeNamespaceRequest)(''namespaces'' := None)\<rparr>)
       = NewOptions exampleEnv nodeNamespaceRequest"
    and "dom (Namespaces opts) = {''bookinfo''}"
    by (simp_all add: v TrimSpace_bookinfo Split_bookinfo)
  with v g a run show ?thesis by blast
qed

lemma Get_upd_other2: "k' \<noteq> k \<Longrightarrow> Get (ps(k' := v)) k = Get ps k"
  by (simp add: Get_def)

lemma resolveQueryParams_params_upd:
  assumes "k \<notin> {''duration'', ''graphType'', ''groupBy'', ''includeIstio'', ''injectServiceNodes'',
                ''queryTime'', ''vendor''}"
  shows "resolveQueryParams env (r\<lparr>params := (params r)(k := v)\<rparr>) = resolveQueryParams env r"
  using assms by (simp add: resolveQueryParams_def Let_def Get_upd_other2)

lemma resolveOptions_params_upd:
  assumes "k \<notin> {''duration'', ''graphType'', ''groupBy'', ''includeIstio'', ''injectServiceNodes'',
                ''queryTime'', ''vendor'', ''namespaces''}"
  shows "resolveOptions env (r\<lparr>params := (params r)(k := v)\<rparr>) = resolveOptions env r"
proof -
  from assms have "resolveQueryParams env (r\<lparr>params := (params r)(k := v)\<rparr>) =
      resolveQueryParams env r"
    by (intro resolveQueryParams_params_upd) simp
  moreover from assms have "Get ((params r)(k := v)) ''namespaces'' = Get (params r) ''namespaces''"
    by (intro Get_upd_other2) auto
  ultimately show ?thesis by (simp add: resolveOptions_def Let_def)
qed

lemma parseAppenders_quantile_Inl:
  "parseAppenders env (ps(''responseTimeQuantile'' := v)) opts = Inl e \<longleftrightarrow>
   parseAppenders env ps opts = Inl e"
  by (simp add: parseAppenders_Inl selectAppenders_upd_other)

lemma buildAppenders_responseTime:
  "filter (\<lambda>a. appenderName a = ResponseTimeAppenderName) (buildAppenders env ps opts m all) =
     (if m ResponseTimeAppenderName \<noteq> None \<or> all
      then [ResponseTimeAppender (responseTimeQuantile env ps) (GraphType (VendorOptions opts))
              (InjectServiceNodes opts) (IncludeIstio opts) (Namespaces opts)
              (QueryTime (VendorOptions opts))]
      else [])"
  by (simp add: buildAppenders_def appenderName_defs)

lemma selectAppenders_selected:
  assumes "selectAppenders ps = Inr (m, all)"
    and "n \<in> set stageOrder"
  shows "(m n \<noteq> None \<or> all) \<longleftrightarrow>
         (ps ''appenders'' = None \<or> n \<in> TrimSpace ` set (Split (Get ps ''appenders'') CHR '',''))"
proof (cases "ps ''appenders''")
  case None
  with assms(1) show ?thesis by (simp add: selectAppenders_all)
next
  case (Some vs)
  with assms(1) have req: "requestAppenders (Split (Get ps ''appenders'') CHR '','') Map.empty = Inr m"
    and nall: "\<not> all"
    by (simp_all add: selectAppenders_some)
  from assms(2) have "n \<noteq> []" using stageOrder_nonempty by auto
  with requestAppenders_Inr [OF req] nall Some show ?thesis by simp
qed

text \<open>
  C8. The \<open>responseTimeQuantile\<close> parameter never makes a request fail: whatever it holds,
  the resolution fails in the same way or not at all. When the resolution succeeds and the
  response time stage is selected, the stage has the default quantile when the parameter
  is absent or does not parse as a number, and the parsed value otherwise.
\<close>

theorem responseTimeQuantile_soft_fallback:
  "(NewOptions env (r\<lparr>params := (params r)(''responseTimeQuantile'' := v)\<rparr>) = Inl e \<longleftrightarrow>
      NewOptions env r = Inl e)
   \<and> (NewOptions env r = Inr opts \<and>
        (params r ''appenders'' = None \<or>
         ResponseTimeAppenderName \<in> TrimSpace ` set (Split (Get (params r) ''appenders'') CHR '','')) \<longrightarrow>
      filter (\<lambda>a. appenderName a = ResponseTimeAppenderName) (Appenders opts) =
        [ResponseTimeAppender
           (case params r ''responseTimeQuantile'' of
              None \<Rightarrow> DefaultQuantile env
            | Some _ \<Rightarrow>
                (case ParseFloat env (Get (params r) ''responseTimeQuantile'') of
                   None \<Rightarrow> DefaultQuantile env
                 | Some quantile \<Rightarrow> quantile))
           (GraphType (VendorOptions opts)) (InjectServiceNodes opts) (IncludeIstio opts)
           (Namespaces opts) (QueryTime (VendorOptions opts))])"
proof (intro conjI impI)
  have "resolveOptions env (r\<lparr>params := (params r)(''responseTimeQuantile'' := v)\<rparr>) =
        resolveOptions env r"
    by (intro resolveOptions_params_upd) simp
  then show "NewOptions env (r\<lparr>params := (params r)(''responseTimeQuantile'' := v)\<rparr>) = Inl e \<longleftrightarrow>
      NewOptions env r = Inl e"
    by (simp add: NewOptions_Inl parseAppenders_quantile_Inl)
next
  assume a: "NewOptions env r = Inr opts \<and>
        (params r ''appenders'' = None \<or>
         ResponseTimeAppenderName \<in> TrimSpace ` set (Split (Get (params r) ''appenders'') CHR '',''))"
  then obtain options as where pa: "parseAppenders env (params r) options = Inr as"
    and opts: "opts = options\<lparr>Appenders := as\<rparr>"
    by (auto elim: NewOptions_InrE)
  from pa obtain m all where sel: "selectAppenders (params r) = Inr (m, all)"
    and as: "as = buildAppenders env (params r) options m all"
    by (auto simp: parseAppenders_Inr)
  have "ResponseTimeAppenderName \<in> set stageOrder" by (simp add: stageOrder_def)
  from selectAppenders_selected [OF sel this] a
  have "m ResponseTimeAppenderName \<noteq> None \<or> all" by simp
  then have "filter (\<lambda>a. appenderName a = ResponseTimeAppenderName) as =
      [ResponseTimeAppender (responseTimeQuantile env (params r)) (GraphType (VendorOptions options))
              (InjectServiceNodes options) (IncludeIstio options) (Namespaces options)
              (QueryTime (VendorOptions options))]"
    unfolding as buildAppenders_responseTime by simp
  with opts show "filter (\<lambda>a. appenderName a = ResponseTimeAppenderName) (Appenders opts) =
        [ResponseTimeAppender
           (case params r ''responseTimeQuantile'' of
              None \<Rightarrow> DefaultQuantile env
            | Some _ \<Rightarrow>
                (case ParseFloat env (Get (params r) ''responseTimeQuantile'') of
                   None \<Rightarrow> DefaultQuantile env
                 | Some quantile \<Rightarrow> quantile))
           (GraphType (VendorOptions opts)) (InjectServiceNodes opts) (IncludeIstio opts)
           (Namespaces opts) (QueryTime (VendorOptions opts))]"
    by (simp add: responseTimeQuantile_def split: option.splits)
qed

theorem responseTimeQuantile_soft_fallback_witness:
  "ParseFloat exampleEnv ''abc'' = None
   \<and> (\<exists>opts. NewOptions exampleEnv (quantileRequest ''abc'') = Inr opts \<and>
         filter (\<lambda>a. appenderName a = ResponseTimeAppenderName) (Appenders opts) =
           [ResponseTimeAppender (DefaultQuantile exampleEnv) ''workload'' False False
              (Namespaces opts) (QueryTime (VendorOptions opts))])
   \<and> ParseFloat exampleEnv ''0.5'' = Some (1 / 2)
   \<and> (\<exists>opts. NewOptions exampleEnv (quantileRequest ''0.5'') = Inr opts \<and>
         filter (\<lambda>a. appenderName a = ResponseTimeAppenderName) (Appenders opts) =
           [ResponseTimeAppender (1 / 2) ''workload'' False False
              (Namespaces opts) (QueryTime (VendorOptions opts))])"
proof -
  have run: "\<exists>opts. NewOptions exampleEnv (quantileRequest q) = (Inr opts :: error + real Options)
      \<and> GraphType (VendorOptions opts) = ''workload'' \<and> \<not> InjectServiceNodes opts
      \<and> \<not> IncludeIstio opts" for q
    by (simp add: resolve_defs exampleEnv_def quantileRequest_def
        TrimSpace_bookinfo Split_bookinfo)
  have p1: "ParseFloat exampleEnv ''abc'' = None" by (simp add: exampleEnv_def)
  have p2: "ParseFloat exampleEnv ''0.5'' = Some (1 / 2)" by (simp add: exampleEnv_def)
  from run [of "''abc''"] obtain o1 :: "real Options"
    where r1: "NewOptions exampleEnv (quantileRequest ''abc'') = Inr o1"
      and f1: "GraphType (VendorOptions o1) = ''workload''" "\<not> InjectServiceNodes o1" "\<not> IncludeIstio o1"
    by blast
  from run [of "''0.5''"] obtain o2 :: "real Options"
    where r2: "NewOptions exampleEnv (quantileRequest ''0.5'') = Inr o2"
      and f2: "GraphType (VendorOptions o2) = ''workload''" "\<not> InjectServiceNodes o2" "\<not> IncludeIstio o2"
    by blast
  from responseTimeQuantile_soft_fallback [of exampleEnv "quantileRequest ''abc''" None "BadRequest []" o1] r1 f1 p1
  have c1: "filter (\<lambda>a. appenderName a = ResponseTimeAppenderName) (Appenders o1) =
           [ResponseTimeAppender (DefaultQuantile exampleEnv) ''workload'' False False
              (Namespaces o1) (QueryTime (VendorOptions o1))]"
    by (simp add: quantileRequest_def Get_def)
  from responseTimeQuantile_soft_fallback [of exampleEnv "quantileRequest ''0.5''" None "BadRequest []" o2] r2 f2 p2
  have c2: "filter (\<lambda>a. appenderName a = ResponseTimeAppenderName) (Appenders o2) =
           [ResponseTimeAppender (1 / 2) ''workload'' False False
              (Namespaces o2) (QueryTime (VendorOptions o2))]"
    by (simp add: quantileRequest_def Get_def)
  from p1 p2 r1 r2 c1 c2 show ?thesis by blast
qed

subsection \<open>Node graphs and the graph type\<close>

lemma resolveQueryParams_app_BadRequest:
  assumes "lookupVar (vars r) ''app'' \<noteq> []"
    and "Get (params r) ''graphType'' \<noteq> ''app''"
    and "Get (params r) ''graphType'' \<noteq> ''versionedApp''"
  shows "\<exists>msg. resolveQueryParams env r = Inl (BadRequest msg)"
proof (cases "resolveDuration env (Get (params r) ''duration'')")
  case (Inl e)
  then have "resolveQueryParams env r = Inl e"
    by (simp add: resolveQueryParams_def Let_def bindE_def)
  moreover from Inl obtain msg where "e = BadRequest msg"
    by (auto simp: resolveDuration_def split: if_splits option.splits)
  ultimately show ?thesis by blast
next
  case (Inr duration)
  show ?thesis
  proof (cases "resolveGraphType (Get (params r) ''graphType'')")
    case (Inl e)
    with Inr have "resolveQueryParams env r = Inl e"
      by (simp add: resolveQueryParams_def Let_def bindE_def)
    moreover from Inl obtain msg where "e = BadRequest msg"
      by (auto simp: resolveGraphType_def split: if_splits)
    ultimately show ?thesis by blast
  next
    case gt: (Inr graphType)
    with assms(2,3) have "graphType \<noteq> GraphTypeApp" "graphType \<noteq> GraphTypeVersionedApp"
      by (auto simp: resolveGraphType_def defaultGraphType_def GraphTypeApp_def
          GraphTypeVersionedApp_def GraphTypeWorkload_def split: if_splits)
    with assms(1) have "checkAppGraphType (lookupVar (vars r) ''app'') graphType =
        Inl (BadRequest (''Invalid graphType ['' @ graphType @
             '']. This node detail graph supports only graphType app or versionedApp.''))"
      by (simp add: checkAppGraphType_def)
    with Inr gt have "resolveQueryParams env r =
        Inl (BadRequest (''Invalid graphType ['' @ graphType @
             '']. This node detail graph supports only graphType app or versionedApp.''))"
      by (simp add: resolveQueryParams_def Let_def bindE_def)
    then show ?thesis by blast
  qed
qed

lemma resolveQueryParams_vars_upd:
  "k \<noteq> ''app'' \<Longrightarrow>
   resolveQueryParams env (r\<lparr>vars := (vars r)(k := v)\<rparr>) = resolveQueryParams env r"
  by (simp add: resolveQueryParams_def Let_def lookupVar_def)

lemma NewOptions_query_Inl:
  "resolveQueryParams env r = Inl e \<Longrightarrow> NewOptions env r = Inl e"
  by (simp add: NewOptions_def resolveOptions_def Let_def bindE_def)

text \<open>
  C3 (amended). A request whose \<open>app\<close> path variable is set fails with BadRequest unless
  its \<open>graphType\<close> is \<open>app\<close> or \<open>versionedApp\<close>; so it does with \<open>graphType=workload\<close>
  and with no \<open>graphType\<close> (the default is \<open>workload\<close>). The other path variables do
  not enter the checks of the query parameters.
\<close>

theorem app_node_graph_requires_app_graph_type:
  "(lookupVar (vars r) ''app'' \<noteq> [] \<and> Get (params r) ''graphType'' \<noteq> ''app'' \<and>
    Get (params r) ''graphType'' \<noteq> ''versionedApp'' \<longrightarrow>
      (\<exists>msg. NewOptions env r = Inl (BadRequest msg)))
   \<and> (k \<noteq> ''app'' \<longrightarrow>
        resolveQueryParams env (r\<lparr>vars := (vars r)(k := v)\<rparr>) = resolveQueryParams env r)"
proof (intro conjI impI)
  assume "lookupVar (vars r) ''app'' \<noteq> [] \<and> Get (params r) ''graphType'' \<noteq> ''app'' \<and>
    Get (params r) ''graphType'' \<noteq> ''versionedApp''"
  then obtain msg where "resolveQueryParams env r = Inl (BadRequest msg)"
    using resolveQueryParams_app_BadRequest [of r env] by blast
  then have "NewOptions env r = Inl (BadRequest msg)" by (rule NewOptions_query_Inl)
  then show "\<exists>msg. NewOptions env r = Inl (BadRequest msg)" ..
next
  assume "k \<noteq> ''app''"
  then show "resolveQueryParams env (r\<lparr>vars := (vars r)(k := v)\<rparr>) = resolveQueryParams env r"
    by (rule resolveQueryParams_vars_upd)
qed

theorem app_node_graph_requires_app_graph_type_witness:
  "lookupVar (vars (appNodeRequest ''workload'')) ''app'' = ''reviews''
   \<and> Get (params (appNodeRequest ''workload'')) ''graphType'' = ''workload''
   \<and> NewOptions exampleEnv (appNodeRequest ''workload'') =
       Inl (BadRequest ''Invalid graphType [workload]. This node detail graph supports only graphType app or versionedApp.'')
   \<and> resolveQueryParams exampleEnv
         ((appNodeRequest ''workload'')\<lparr>vars := (vars (appNodeRequest ''workload''))(''workload'' \<mapsto> ''details-v1'')\<rparr>) =
       resolveQueryParams exampleEnv (appNodeRequest ''workload'')"
proof -
  let ?r = "appNodeRequest ''workload''"
  have a: "lookupVar (vars ?r) ''app'' = ''reviews''"
    by (simp add: appNodeRequest_def lookupVar_def)
  have g: "Get (params ?r) ''graphType'' = ''workload''"
    by (simp add: appNodeRequest_def Get_def)
  note t = app_node_graph_requires_app_graph_type
    [of ?r exampleEnv "''workload''" "Some ''details-v1''"]
  from t a g obtain msg where m: "NewOptions exampleEnv ?r = Inl (BadRequest msg)"
    by auto
  have "NewOptions exampleEnv ?r =
       Inl (BadRequest ''Invalid graphType [workload]. This node detail graph supports only graphType app or versionedApp.'')"
    by (simp add: resolve_defs exampleEnv_def appNodeRequest_def)
  moreover from t have "resolveQueryParams exampleEnv
         (?r\<lparr>vars := (vars ?r)(''workload'' \<mapsto> ''details-v1'')\<rparr>) =
       resolveQueryParams exampleEnv ?r"
    by simp
  ultimately show ?thesis using a g m by simp
qed

theorem node_selector_counterexample:
  "lookupVar (vars workloadNodeRequest) ''workload'' = ''details-v1''
   \<and> Get (params workloadNodeRequest) ''graphType'' = ''workload''
   \<and> \<not> isl (NewOptions exampleEnv workloadNodeRequest)
   \<and> GetGraphKind (projr (NewOptions exampleEnv workloadNodeRequest)) = graphKindNode"
  by (simp add: resolve_defs exampleEnv_def workloadNodeRequest_def
      TrimSpace_bookinfo Split_bookinfo GetGraphKind_def)

text \<open>
  C9 (amended). The request with the path variables \<open>app=reviews\<close> and
  \<open>namespace=bookinfo\<close> and the query parameter \<open>graphType=service\<close> fails with
  BadRequest: an app node graph supports only the graph types \<open>app\<close> and
  \<open>versionedApp\<close>. With the path variable \<open>service=reviews\<close> in the place of
  \<open>app=reviews\<close>, and \<open>bookinfo\<close> accessible to the caller, the resolution succeeds, the
  graph is a node graph, \<open>InjectServiceNodes\<close> is set and the unused node stage has
  \<open>IsNodeGraph\<close> set.
\<close>

theorem service_node_graph_example:
  "NewOptions env (appNodeRequest ''service'') =
     Inl (BadRequest ''Invalid graphType [service]. This node detail graph supports only graphType app or versionedApp.'')
   \<and> (getAccessibleNamespaces env token = Inr accessible \<and> accessible ''bookinfo'' = Some created \<longrightarrow>
        (\<exists>opts. NewOptions env (serviceNodeRequest token) = Inr opts \<and>
           GetGraphKind opts = graphKindNode \<and>
           InjectServiceNodes opts \<and>
           filter (\<lambda>a. appenderName a = UnusedNodeAppenderName) (Appenders opts) =
             [UnusedNodeAppender GraphTypeService True]))"
proof (intro conjI impI)
  show "NewOptions env (appNodeRequest ''service'') =
     Inl (BadRequest ''Invalid graphType [service]. This node detail graph supports only graphType app or versionedApp.'')"
    by (simp add: NewOptions_def resolveOptions_def resolveQueryParams_def Let_def bindE_def
        resolveDuration_def resolveGraphType_def checkAppGraphType_def appNodeRequest_def
        Get_def lookupVar_def GraphTypeApp_def GraphTypeService_def GraphTypeVersionedApp_def
        GraphTypeWorkload_def)
next
  assume a: "getAccessibleNamespaces env token = Inr accessible \<and> accessible ''bookinfo'' = Some created"
  let ?r = "serviceNodeRequest token"
  let ?d = "case ParseDuration env defaultDuration of None \<Rightarrow> 0 | Some d \<Rightarrow> d"
  let ?qt = "ToUnix (clock env 0)"
  have q: "resolveQueryParams env ?r =
      Inr (?d, GraphTypeService, defaultGroupBy, defaultIncludeIstio, defaultInjectServiceNodes,
           (?qt, 1), defaultVendor)"
    by (simp add: resolveQueryParams_Inr serviceNodeRequest_def Get_def lookupVar_def
        resolveDuration_def resolveGraphType_service checkAppGraphType_def resolveGroupBy_def
        resolveIncludeIstio_def resolveInjectServiceNodes_def resolveQueryTime_def
        resolveVendor_def)
  have t: "resolveToken (tokenContext ?r) = Inr token"
    by (simp add: resolveToken_def serviceNodeRequest_def)
  have n: "requestedNamespaces (lookupVar (vars ?r) ''namespace'') (Get (params ?r) ''namespaces'') =
      Inr ''bookinfo''"
    by (simp add: requestedNamespaces_def serviceNodeRequest_def lookupVar_def)
  from a have acc: "getAccessibleNamespaces env token = Inr accessible"
    and c: "accessible (TrimSpace ''bookinfo'') = Some created"
    by (simp_all add: TrimSpace_bookinfo)
  let ?options = "\<lparr>AccessibleNamespaces = accessible,
         Appenders = [],
         IncludeIstio = defaultIncludeIstio,
         InjectServiceNodes = True,
         Namespaces = [TrimSpace ''bookinfo'' \<mapsto> \<lparr>ns_Name = TrimSpace ''bookinfo'',
             ns_Duration = resolveNamespaceDuration created ?d ?qt (clock env 1)\<rparr>],
         Vendor = defaultVendor,
         NodeOptions =
           \<lparr>App = [], Namespace = ''bookinfo'', Service = ''reviews'', Version = [], Workload = []\<rparr>,
         VendorOptions =
           \<lparr>Duration = ?d, GraphType = GraphTypeService, GroupBy = defaultGroupBy,
            QueryTime = ?qt\<rparr>\<rparr> :: 'a Options"
  have ro: "resolveOptions env ?r = Inr ?options"
    unfolding resolveOptions_run [OF q t acc n]
    using c by (simp add: Split_bookinfo bindE_def serviceNodeRequest_def lookupVar_def Let_def)
  have sel: "selectAppenders (params ?r) = Inr (Map.empty, True)"
    by (simp add: selectAppenders_def serviceNodeRequest_def)
  let ?as = "buildAppenders env (params ?r) ?options Map.empty True"
  from ro parseAppenders_run [OF sel, of env ?options]
  have run: "NewOptions env ?r = Inr (?options\<lparr>Appenders := ?as\<rparr>)"
    by (simp add: NewOptions_def bindE_def)
  have "GetGraphKind (?options\<lparr>Appenders := ?as\<rparr>) = graphKindNode"
    by (simp add: GetGraphKind_def)
  moreover have "InjectServiceNodes (?options\<lparr>Appenders := ?as\<rparr>)" by simp
  moreover have "filter (\<lambda>a. appenderName a = UnusedNodeAppenderName)
        (Appenders (?options\<lparr>Appenders := ?as\<rparr>)) = [UnusedNodeAppender GraphTypeService True]"
    by (simp add: buildAppenders_all appenderName_defs)
  ultimately show "\<exists>opts. NewOptions env (serviceNodeRequest token) = Inr opts \<and>
           GetGraphKind opts = graphKindNode \<and>
           InjectServiceNodes opts \<and>
           filter (\<lambda>a. appenderName a = UnusedNodeAppenderName) (Appenders opts) =
             [UnusedNodeAppender GraphTypeService True]"
    using run by blast
qed

theorem service_node_graph_example_witness:
  "(\<exists>accessible created.
      getAccessibleNamespaces exampleEnv ''token'' = Inr accessible \<and>
      accessible ''bookinfo'' = Some created)
   \<and> (\<exists>opts. NewOptions exampleEnv (serviceNodeRequest ''token'') = Inr opts \<and>
           GetGraphKind opts = graphKindNode \<and>
           InjectServiceNodes opts \<and>
           filter (\<lambda>a. appenderName a = UnusedNodeAppenderName) (Appenders opts) =
             [UnusedNodeAppender GraphTypeService True])"
proof -
  have "\<exists>accessible created.
      getAccessibleNamespaces exampleEnv ''token'' = Inr accessible \<and>
      accessible ''bookinfo'' = Some created"
    by (simp add: getAccessibleNamespaces_def exampleEnv_def)
  then obtain accessible created
    where a: "getAccessibleNamespaces exampleEnv ''token'' = Inr accessible"
      and c: "accessible ''bookinfo'' = Some created"
    by blast
  from service_node_graph_example [of exampleEnv "''token''" accessible created] a c
  show ?thesis by blast
qed

theorem app_service_graph_counterexample:
  "lookupVar (vars (appNodeRequest ''service'')) ''app'' = ''reviews''
   \<and> lookupVar (vars (appNodeRequest ''service'')) ''namespace'' = ''bookinfo''
   \<and> Get (params (appNodeRequest ''service'')) ''graphType'' = ''service''
   \<and> projr (getAccessibleNamespaces exampleEnv ''token'') ''bookinfo'' = Some (Unix 1599999700 0)
   \<and> NewOptions exampleEnv (appNodeRequest ''service'') =
       Inl (BadRequest ''Invalid graphType [service]. This node detail graph supports only graphType app or versionedApp.'')"
  by (simp add: resolve_defs exampleEnv_def appNodeRequest_def)

subsection \<open>Namespaces that are not accessible\<close>

lemma resolveNamespaces_Forbidden:
  "find (\<lambda>p. accessible (TrimSpace p) = None) pieces = Some p \<Longrightarrow>
   resolveNamespaces env accessible d qt pieces (m, k) =
     Inl (Forbidden (''Requested namespace ['' @ TrimSpace p @ ''] is not accessible.''))"
proof (induction pieces arbitrary: m k)
  case Nil
  then show ?case by simp
next
  case (Cons x xs)
  show ?case
  proof (cases "accessible (TrimSpace x)")
    case None
    with Cons.prems have "p = x" by simp
    with None show ?thesis by (simp add: Let_def)
  next
    case (Some c)
    with Cons.prems have "find (\<lambda>p. accessible (TrimSpace p) = None) xs = Some p" by simp
    from Cons.IH [OF this] Some show ?thesis by (simp add: Let_def)
  qed
qed

lemma NewOptions_target_namespaces:
  assumes "NewOptions env r = Inr opts"
    and "p \<in> set (Split (effectiveNamespaces r) CHR '','')"
  shows "TrimSpace p \<in> dom (AccessibleNamespaces opts) \<and> TrimSpace p \<in> dom (Namespaces opts)"
  using target_namespaces_dom [OF assms(1)] assms(2) by blast

text \<open>
  C6 (amended). The namespaces that a request names are the pieces of its namespace list:
  the \<open>namespace\<close> path variable when it is set, the \<open>namespaces\<close> query parameter
  otherwise (with the path variable set, the query parameter is not read: a request with
  \<open>namespace=bookinfo\<close> and \<open>namespaces=secret\<close> resolves to \<open>bookinfo\<close> alone). When
  a piece of that list is, trimmed of white space, not accessible to the caller, no
  options are returned and no piece is dropped silently: on success every piece is
  accessible and is a target namespace. With such a piece the resolution fails, failing
  fast: with the failure of the query parameter checks when one of them fails, else with
  BadRequest when the namespace list is empty, else with Forbidden, whose message names
  the first piece that is not accessible.
\<close>

theorem unauthorized_namespace_forbidden:
  "(NewOptions env r = Inr opts \<longrightarrow>
      (\<forall>p\<in>set (Split (effectiveNamespaces r) CHR '','').
         TrimSpace p \<in> dom (AccessibleNamespaces opts) \<and> TrimSpace p \<in> dom (Namespaces opts)))
   \<and> (resolveToken (tokenContext r) = Inr token \<and>
        getAccessibleNamespaces env token = Inr accessible \<and>
        find (\<lambda>p. accessible (TrimSpace p) = None) (Split (effectiveNamespaces r) CHR '','') = Some p \<longrightarrow>
      NewOptions env r =
        (case resolveQueryParams env r of
           Inl e \<Rightarrow> Inl e
         | Inr _ \<Rightarrow>
             if effectiveNamespaces r = [] then
               Inl (BadRequest
                 ''At least one namespace must be specified via the namespaces query parameter.'')
             else
               Inl (Forbidden (''Requested namespace ['' @ TrimSpace p @ ''] is not accessible.''))))"
proof (intro conjI impI ballI)
  fix p
  assume "NewOptions env r = Inr opts" and "p \<in> set (Split (effectiveNamespaces r) CHR '','')"
  then have "TrimSpace p \<in> dom (AccessibleNamespaces opts) \<and> TrimSpace p \<in> dom (Namespaces opts)"
    by (rule NewOptions_target_namespaces)
  then show "TrimSpace p \<in> dom (AccessibleNamespaces opts)"
    and "TrimSpace p \<in> dom (Namespaces opts)" by simp_all
next
  assume a: "resolveToken (tokenContext r) = Inr token \<and>
        getAccessibleNamespaces env token = Inr accessible \<and>
        find (\<lambda>p. accessible (TrimSpace p) = None) (Split (effectiveNamespaces r) CHR '','') = Some p"
  show "NewOptions env r =
        (case resolveQueryParams env r of
           Inl e \<Rightarrow> Inl e
         | Inr _ \<Rightarrow>
             if effectiveNamespaces r = [] then
               Inl (BadRequest
                 ''At least one namespace must be specified via the namespaces query parameter.'')
             else
               Inl (Forbidden (''Requested namespace ['' @ TrimSpace p @ ''] is not accessible.'')))"
  proof (cases "resolveQueryParams env r")
    case (Inl e)
    then show ?thesis by (simp add: NewOptions_query_Inl)
  next
    case (Inr q)
    obtain duration graphType groupBy includeIstio injectServiceNodes queryTime readings vendor
      where q: "q = (duration, graphType, groupBy, includeIstio, injectServiceNodes,
               (queryTime, readings), vendor)"
      by (metis surj_pair)
    show ?thesis
    proof (cases "effectiveNamespaces r = []")
      case True
      then have "requestedNamespaces (lookupVar (vars r) ''namespace'') (Get (params r) ''namespaces'') =
          Inl (BadRequest
                 ''At least one namespace must be specified via the namespaces query parameter.'')"
        by (auto simp: requestedNamespaces_def effectiveNamespaces_def Let_def split: if_splits)
      with Inr q a True show ?thesis
        by (simp add: NewOptions_def resolveOptions_def Let_def bindE_def)
    next
      case False
      then have n: "requestedNamespaces (lookupVar (vars r) ''namespace'') (Get (params r) ''namespaces'') =
          Inr (effectiveNamespaces r)"
        by (simp add: requestedNamespaces_Inr)
      from a have f: "find (\<lambda>p. accessible (TrimSpace p) = None)
          (Split (effectiveNamespaces r) CHR '','') = Some p" by simp
      from a have t: "resolveToken (tokenContext r) = Inr token"
        and g: "getAccessibleNamespaces env token = Inr accessible" by simp_all
      have "resolveOptions env r =
          Inl (Forbidden (''Requested namespace ['' @ TrimSpace p @ ''] is not accessible.''))"
        unfolding resolveOptions_run [OF Inr [unfolded q] t g n]
        by (simp add: resolveNamespaces_Forbidden [OF f] bindE_def)
      with Inr False show ?thesis by (simp add: NewOptions_Inl)
    qed
  qed
qed

theorem unauthorized_namespace_forbidden_witness:
  "find (\<lambda>p. projr (getAccessibleNamespaces exampleEnv ''token'') (TrimSpace p) = None)
        (Split ''bookinfo, secret'' CHR '','') = Some '' secret''
   \<and> NewOptions exampleEnv (namespacesRequest ''10m'' ''bookinfo, secret'') =
       Inl (Forbidden ''Requested namespace [secret] is not accessible.'')
   \<and> (\<exists>opts. NewOptions exampleEnv (namespacesRequest ''10m'' ''bookinfo'') = Inr opts \<and>
         TrimSpace ''bookinfo'' \<in> dom (AccessibleNamespaces opts) \<and>
         TrimSpace ''bookinfo'' \<in> dom (Namespaces opts))"
proof -
  have s: "Split ''bookinfo, secret'' CHR '','' = [''bookinfo'', '' secret'']" by code_simp
  have ts: "TrimSpace '' secret'' = ''secret''" by code_simp
  have acc: "\<exists>accessible. getAccessibleNamespaces exampleEnv ''token'' = Inr accessible"
    by (simp add: getAccessibleNamespaces_def exampleEnv_def)
  then obtain accessible where g: "getAccessibleNamespaces exampleEnv ''token'' = Inr accessible" ..
  have f: "find (\<lambda>p. projr (getAccessibleNamespaces exampleEnv ''token'') (TrimSpace p) = None)
        (Split ''bookinfo, secret'' CHR '','') = Some '' secret''"
    by (simp add: s ts TrimSpace_bookinfo getAccessibleNamespaces_def exampleEnv_def)
  with g have f': "find (\<lambda>p. accessible (TrimSpace p) = None)
        (Split ''bookinfo, secret'' CHR '','') = Some '' secret''" by simp
  let ?r = "namespacesRequest ''10m'' ''bookinfo, secret''"
  have e: "effectiveNamespaces ?r = ''bookinfo, secret''"
    by (simp add: effectiveNamespaces_def namespacesRequest_def Get_def lookupVar_def)
  have t: "resolveToken (tokenContext ?r) = Inr ''token''"
    by (simp add: resolveToken_def namespacesRequest_def)
  have q: "\<not> isl (resolveQueryParams exampleEnv ?r)"
    by (simp add: resolve_defs exampleEnv_def namespacesRequest_def)
  from unauthorized_namespace_forbidden [of exampleEnv ?r exampleOptions "''token''" accessible "'' secret''"]
    t g f' e q
  have c1: "NewOptions exampleEnv ?r = Inl (Forbidden ''Requested namespace [secret] is not accessible.'')"
    by (simp add: ts split: sum.splits)
  let ?r2 = "namespacesRequest ''10m'' ''bookinfo''"
  have "\<exists>opts. NewOptions exampleEnv ?r2 = (Inr opts :: error + real Options)"
    by (simp add: resolve_defs exampleEnv_def namespacesRequest_def
        TrimSpace_bookinfo Split_bookinfo)
  then obtain opts where run: "NewOptions exampleEnv ?r2 = Inr opts" ..
  have e2: "effectiveNamespaces ?r2 = ''bookinfo''"
    by (simp add: effectiveNamespaces_def namespacesRequest_def Get_def lookupVar_def)
  from unauthorized_namespace_forbidden [of exampleEnv ?r2 opts] run e2
  have c2: "TrimSpace ''bookinfo'' \<in> dom (AccessibleNamespaces opts) \<and>
         TrimSpace ''bookinfo'' \<in> dom (Namespaces opts)"
    by (simp add: Split_bookinfo)
  from f c1 run c2 show ?thesis by blast
qed

theorem unauthorized_namespace_counterexample:
  "lookupVar (vars nodeNamespaceRequest) ''namespace'' = ''bookinfo''
   \<and> Split (Get (params nodeNamespaceRequest) ''namespaces'') CHR '','' = [''secret'']
   \<and> TrimSpace ''secret'' = ''secret''
   \<and> projr (getAccessibleNamespaces exampleEnv ''token'') ''secret'' = None
   \<and> \<not> isl (NewOptions exampleEnv nodeNamespaceRequest)
   \<and> Namespaces (projr (NewOptions exampleEnv nodeNamespaceRequest)) ''secret'' = None
   \<and> dom (Namespaces (projr (NewOptions exampleEnv nodeNamespaceRequest))) = {''bookinfo''}"
proof -
  have s: "Split ''secret'' CHR '','' = [''secret'']" by code_simp
  have t: "TrimSpace ''secret'' = ''secret''" by code_simp
  show ?thesis
    by (simp add: resolve_defs exampleEnv_def nodeNamespaceRequest_def s t
        TrimSpace_bookinfo Split_bookinfo)
qed

end
